theory Spec2Isabelle
  imports Complex_Main
begin

section \<open>The arithmetic of the C types\<close>

text \<open>
  \<open>realtype\<close> is \<open>float\<close>, \<open>double\<close> or \<open>long double\<close>, chosen when the library is
  configured (sundials\_types.h, lines 77-99). Its arithmetic rounds, overflows to an
  infinity, underflows to zero, and has NaNs. The model does not fix it. Where the code
  computes with \<open>realtype\<close> values or compares them, their type is a type variable, and the
  conversion of a decimal constant (the macro \<open>RCONST\<close>), the four operations, the two
  comparisons and the macros \<open>ABS\<close> and \<open>MAX\<close> (sundials\_math.h, not among the sources)
  are the fields of a record that the function takes as an argument. What is proved of
  such a function holds for every arithmetic.
\<close>

record 'r realtype_arith =
  RCONST :: "real \<Rightarrow> 'r"
  r_add :: "'r \<Rightarrow> 'r \<Rightarrow> 'r"
  r_sub :: "'r \<Rightarrow> 'r \<Rightarrow> 'r"
  r_mul :: "'r \<Rightarrow> 'r \<Rightarrow> 'r"
  r_div :: "'r \<Rightarrow> 'r \<Rightarrow> 'r"
  r_less :: "'r \<Rightarrow> 'r \<Rightarrow> bool"
  r_greater :: "'r \<Rightarrow> 'r \<Rightarrow> bool"
  r_abs :: "'r \<Rightarrow> 'r"
  r_max :: "'r \<Rightarrow> 'r \<Rightarrow> 'r"

text \<open>
  Where \<open>realtype\<close> values are only stored, copied and handed to the KLU package (the
  values of a sparse matrix, the components of the vectors of the solve operation), they
  are modelled by the reals they denote.
\<close>

type_synonym realtype = real

text \<open>The decimal constants \<open>ONE\<close> and \<open>TWOTHIRDS\<close> of the two files.\<close>

definition ONE :: real where
  "ONE = 1"

definition TWOTHIRDS :: real where
  "TWOTHIRDS = 666666666666666666666666666666667 / 10 ^ 33"

text \<open>
  \<open>long int\<close> is modelled by \<open>int\<close>. Where the code adds two of its arguments before
  anything bounds their sum (the constructor \<open>KINBand\<close>), the result is reduced to the 64
  bits of the \<open>long int\<close> of the LP64 data model, in two's complement.
\<close>

definition LONG_MAX :: int where
  "LONG_MAX = 2 ^ 63 - 1"

definition LONG_MIN :: int where
  "LONG_MIN = - (2 ^ 63)"

definition long_wrap :: "int \<Rightarrow> int" where
  "long_wrap x = (x + 2 ^ 63) mod 2 ^ 64 - 2 ^ 63"


section \<open>The KLU sparse direct linear solver (src/sunlinsol\_klu/sunlinsol\_klu.c)\<close>

subsection \<open>Data model\<close>

text \<open>
  The \<open>SUNLS_*\<close> return codes. Their header is not among the sources, so the codes
  are kept symbolic.
\<close>

datatype sunls_flag =
    SUNLS_SUCCESS
  | SUNLS_MEM_NULL
  | SUNLS_ILL_INPUT
  | SUNLS_MEM_FAIL
  | SUNLS_PACKAGE_FAIL_REC
  | SUNLS_PACKAGE_FAIL_UNREC

datatype SUNMatrix_ID = SUNMATRIX_DENSE | SUNMATRIX_BAND | SUNMATRIX_SPARSE | SUNMATRIX_CUSTOM

text \<open>
  A \<open>SUNMatrix\<close>: its identifier and the fields of \<open>struct _SUNMatrixContent_Sparse\<close>
  that the solver reads, named after the access macros of sunmatrix\_sparse.h.
\<close>

record SUNMatrix =
  SUNMatGetID :: SUNMatrix_ID
  SM_NP_S :: int
  SM_DATA_S :: "realtype list"
  SM_INDEXVALS_S :: "int list"
  SM_INDEXPTRS_S :: "int list"

text \<open>
  An \<open>N_Vector\<close>: its components, and whether \<open>N_VGetArrayPointer\<close> hands out a
  non-NULL array for it.
\<close>

record N_Vector =
  nv_elems :: "realtype list"
  nv_array :: bool

text \<open>
  Modelled from the spec: the vector capability's \<open>scale(c, x)\<close> operation and raw
  array access; the NVECTOR implementation is not among the sources.
  \<open>N_VScale c x z\<close> stores \<open>c * x\<close> in \<open>z\<close>.
\<close>

definition N_VScale :: "realtype \<Rightarrow> N_Vector \<Rightarrow> N_Vector \<Rightarrow> N_Vector" where
  "N_VScale c x z = z\<lparr>nv_elems := map (\<lambda>v. c * v) (nv_elems x)\<rparr>"

definition N_VGetArrayPointer :: "N_Vector \<Rightarrow> realtype list option" where
  "N_VGetArrayPointer v = (if nv_array v then Some (nv_elems v) else None)"

text \<open>
  The KLU package is an external library. It is a parameter of the model: one function per
  entry point used by the solver, with the C signature. A pointer argument is an
  \<open>option\<close> (\<open>None\<close> is NULL); the \<open>klu_common\<close> block, which every entry point may
  update, is passed in and returned. \<open>klu_common_rcond\<close> and \<open>klu_common_condest\<close> read
  the fields \<open>rcond\<close> and \<open>condest\<close> of the common block; setup compares them with its
  thresholds, so they are values of the arithmetic \<open>'r\<close>.
\<close>

record ('sym, 'num, 'com, 'r) klu_library =
  sun_klu_analyze :: "int \<Rightarrow> int list \<Rightarrow> int list \<Rightarrow> 'com \<Rightarrow> 'sym option \<times> 'com"
  sun_klu_factor ::
    "int list \<Rightarrow> int list \<Rightarrow> realtype list \<Rightarrow> 'sym option \<Rightarrow> 'com \<Rightarrow> 'num option \<times> 'com"
  sun_klu_refactor ::
    "int list \<Rightarrow> int list \<Rightarrow> realtype list \<Rightarrow> 'sym option \<Rightarrow> 'num option \<Rightarrow> 'com
      \<Rightarrow> int \<times> 'num option \<times> 'com"
  sun_klu_rcond :: "'sym option \<Rightarrow> 'num option \<Rightarrow> 'com \<Rightarrow> int \<times> 'com"
  sun_klu_condest ::
    "int list \<Rightarrow> realtype list \<Rightarrow> 'sym option \<Rightarrow> 'num option \<Rightarrow> 'com \<Rightarrow> int \<times> 'com"
  sun_klu_free_symbolic :: "'sym option \<Rightarrow> 'com \<Rightarrow> 'com"
  sun_klu_free_numeric :: "'num option \<Rightarrow> 'com \<Rightarrow> 'com"
  klu_common_rcond :: "'com \<Rightarrow> 'r"
  klu_common_condest :: "'com \<Rightarrow> 'r"


datatype klu_call =
    KLU_ANALYZE
  | KLU_FACTOR
  | KLU_REFACTOR
  | KLU_RCOND
  | KLU_CONDEST
  | KLU_FREE_SYMBOLIC
  | KLU_FREE_NUMERIC
  | KLU_SOLVE

text \<open>
  The solver content (the fields behind the macros \<open>LASTFLAG\<close>, \<open>FIRSTFACTORIZE\<close>,
  \<open>SYMBOLIC\<close>, \<open>NUMERIC\<close>, \<open>COMMON\<close>, \<open>SOLVE\<close>). \<open>first_factorize\<close> is a C int
  holding 0 or 1. \<open>klu_calls\<close> is not a field of the C structure: it is the log of the
  library calls made through this solver.
\<close>

record ('sym, 'num, 'com) SUNLinearSolverContent_KLU =
  last_flag :: sunls_flag
  first_factorize :: bool
  symbolic :: "'sym option"
  numeric :: "'num option"
  common :: 'com
  klu_solver ::
    "'sym option \<Rightarrow> 'num option \<Rightarrow> int \<Rightarrow> int \<Rightarrow> realtype list \<Rightarrow> 'com
      \<Rightarrow> int \<times> realtype list \<times> 'com"
  klu_calls :: "klu_call list"

subsection \<open>Operations\<close>

text \<open>\<open>LASTFLAG(S) = flag; return(LASTFLAG(S));\<close>\<close>

definition return_flag ::
  "('sym, 'num, 'com) SUNLinearSolverContent_KLU \<Rightarrow> sunls_flag
    \<Rightarrow> sunls_flag \<times> ('sym, 'num, 'com) SUNLinearSolverContent_KLU" where
  "return_flag S flag = (flag, S\<lparr>last_flag := flag\<rparr>)"

text \<open>The three configuration operations of iterative solvers (lines 243-270).\<close>

definition SUNLinSolSetATimes_KLU ::
  "('sym, 'num, 'com) SUNLinearSolverContent_KLU \<Rightarrow> 'a \<Rightarrow> 'b \<Rightarrow> 'c
    \<Rightarrow> sunls_flag \<times> ('sym, 'num, 'com) SUNLinearSolverContent_KLU" where
  "SUNLinSolSetATimes_KLU S A_data ATSetup ATimes = return_flag S SUNLS_ILL_INPUT"

definition SUNLinSolSetPreconditioner_KLU ::
  "('sym, 'num, 'com) SUNLinearSolverContent_KLU \<Rightarrow> 'a \<Rightarrow> 'b \<Rightarrow> 'c
    \<Rightarrow> sunls_flag \<times> ('sym, 'num, 'com) SUNLinearSolverContent_KLU" where
  "SUNLinSolSetPreconditioner_KLU S P_data Pset Psol = return_flag S SUNLS_ILL_INPUT"

definition SUNLinSolSetScalingVectors_KLU ::
  "('sym, 'num, 'com) SUNLinearSolverContent_KLU \<Rightarrow> 'a \<Rightarrow> 'b
    \<Rightarrow> sunls_flag \<times> ('sym, 'num, 'com) SUNLinearSolverContent_KLU" where
  "SUNLinSolSetScalingVectors_KLU S s1 s2 = return_flag S SUNLS_ILL_INPUT"

text \<open>\<open>SUNLinSolInitialize_KLU\<close> (lines 233-240): force a factorization.\<close>

definition SUNLinSolInitialize_KLU ::
  "('sym, 'num, 'com) SUNLinearSolverContent_KLU
    \<Rightarrow> sunls_flag \<times> ('sym, 'num, 'com) SUNLinearSolverContent_KLU" where
  "SUNLinSolInitialize_KLU S = return_flag (S\<lparr>first_factorize := True\<rparr>) SUNLS_SUCCESS"

text \<open>
  The library calls of \<open>SUNLinSolSetup_KLU\<close>, each with the arguments the source passes,
  storing what the call returns and logging the call.
\<close>

definition call_free_symbolic ::
  "('sym, 'num, 'com, 'r) klu_library \<Rightarrow> ('sym, 'num, 'com) SUNLinearSolverContent_KLU
    \<Rightarrow> ('sym, 'num, 'com) SUNLinearSolverContent_KLU" where
  "call_free_symbolic K S =
     S\<lparr>symbolic := None,
       common := sun_klu_free_symbolic K (symbolic S) (common S),
       klu_calls := klu_calls S @ [KLU_FREE_SYMBOLIC]\<rparr>"

definition call_free_numeric ::
  "('sym, 'num, 'com, 'r) klu_library \<Rightarrow> ('sym, 'num, 'com) SUNLinearSolverContent_KLU
    \<Rightarrow> ('sym, 'num, 'com) SUNLinearSolverContent_KLU" where
  "call_free_numeric K S =
     S\<lparr>numeric := None,
       common := sun_klu_free_numeric K (numeric S) (common S),
       klu_calls := klu_calls S @ [KLU_FREE_NUMERIC]\<rparr>"

definition call_analyze ::
  "('sym, 'num, 'com, 'r) klu_library \<Rightarrow> ('sym, 'num, 'com) SUNLinearSolverContent_KLU
    \<Rightarrow> SUNMatrix \<Rightarrow> ('sym, 'num, 'com) SUNLinearSolverContent_KLU" where
  "call_analyze K S A =
     (let (sym, c) = sun_klu_analyze K (SM_NP_S A) (SM_INDEXPTRS_S A) (SM_INDEXVALS_S A)
                       (common S)
      in S\<lparr>symbolic := sym, common := c, klu_calls := klu_calls S @ [KLU_ANALYZE]\<rparr>)"

definition call_factor ::
  "('sym, 'num, 'com, 'r) klu_library \<Rightarrow> ('sym, 'num, 'com) SUNLinearSolverContent_KLU
    \<Rightarrow> SUNMatrix \<Rightarrow> ('sym, 'num, 'com) SUNLinearSolverContent_KLU" where
  "call_factor K S A =
     (let (num, c) = sun_klu_factor K (SM_INDEXPTRS_S A) (SM_INDEXVALS_S A) (SM_DATA_S A)
                       (symbolic S) (common S)
      in S\<lparr>numeric := num, common := c, klu_calls := klu_calls S @ [KLU_FACTOR]\<rparr>)"

definition call_refactor ::
  "('sym, 'num, 'com, 'r) klu_library \<Rightarrow> ('sym, 'num, 'com) SUNLinearSolverContent_KLU
    \<Rightarrow> SUNMatrix \<Rightarrow> int \<times> ('sym, 'num, 'com) SUNLinearSolverContent_KLU" where
  "call_refactor K S A =
     (let (retval, num, c) =
            sun_klu_refactor K (SM_INDEXPTRS_S A) (SM_INDEXVALS_S A) (SM_DATA_S A)
              (symbolic S) (numeric S) (common S)
      in (retval, S\<lparr>numeric := num, common := c, klu_calls := klu_calls S @ [KLU_REFACTOR]\<rparr>))"

definition call_rcond ::
  "('sym, 'num, 'com, 'r) klu_library \<Rightarrow> ('sym, 'num, 'com) SUNLinearSolverContent_KLU
    \<Rightarrow> int \<times> ('sym, 'num, 'com) SUNLinearSolverContent_KLU" where
  "call_rcond K S =
     (let (retval, c) = sun_klu_rcond K (symbolic S) (numeric S) (common S)
      in (retval, S\<lparr>common := c, klu_calls := klu_calls S @ [KLU_RCOND]\<rparr>))"

definition call_condest ::
  "('sym, 'num, 'com, 'r) klu_library \<Rightarrow> ('sym, 'num, 'com) SUNLinearSolverContent_KLU
    \<Rightarrow> SUNMatrix \<Rightarrow> int \<times> ('sym, 'num, 'com) SUNLinearSolverContent_KLU" where
  "call_condest K S A =
     (let (retval, c) = sun_klu_condest K (SM_INDEXPTRS_S A) (SM_DATA_S A)
                          (symbolic S) (numeric S) (common S)
      in (retval, S\<lparr>common := c, klu_calls := klu_calls S @ [KLU_CONDEST]\<rparr>))"

text \<open>
  \<open>SUNLinSolSetup_KLU\<close>, the branch taken when \<open>FIRSTFACTORIZE(S)\<close> is set
  (lines 287-316): symbolic analysis, then numeric factorization.
\<close>

definition setup_first_factorize ::
  "('sym, 'num, 'com, 'r) klu_library \<Rightarrow> ('sym, 'num, 'com) SUNLinearSolverContent_KLU
    \<Rightarrow> SUNMatrix \<Rightarrow> sunls_flag \<times> ('sym, 'num, 'com) SUNLinearSolverContent_KLU" where
  "setup_first_factorize K S A =
     (let S1 = (if symbolic S \<noteq> None then call_free_symbolic K S else S);
          S2 = call_analyze K S1 A
      in if symbolic S2 = None then return_flag S2 SUNLS_PACKAGE_FAIL_UNREC
         else
           let S3 = (if numeric S2 \<noteq> None then call_free_numeric K S2 else S2);
               S4 = call_factor K S3 A
           in if numeric S4 = None then return_flag S4 SUNLS_PACKAGE_FAIL_UNREC
              else return_flag (S4\<lparr>first_factorize := False\<rparr>) SUNLS_SUCCESS)"


text \<open>
  The branch taken otherwise (lines 318-374): numeric re-factorization, the cheap
  estimate \<open>rcond\<close>, and when it is below \<open>uround_twothirds\<close> the estimate \<open>condest\<close>
  and, when that is above \<open>ONE/uround_twothirds\<close>, a new numeric factorization. The two
  comparisons and the division are those of \<open>realtype\<close>.
\<close>

definition setup_refactor ::
  "'r realtype_arith \<Rightarrow> ('sym, 'num, 'com, 'r) klu_library \<Rightarrow> 'r
    \<Rightarrow> ('sym, 'num, 'com) SUNLinearSolverContent_KLU
    \<Rightarrow> SUNMatrix \<Rightarrow> sunls_flag \<times> ('sym, 'num, 'com) SUNLinearSolverContent_KLU" where
  "setup_refactor ar K uround_twothirds S A =
     (let (retval1, S1) = call_refactor K S A
      in if retval1 = 0 then return_flag S1 SUNLS_PACKAGE_FAIL_REC
         else
           let (retval2, S2) = call_rcond K S1
           in if retval2 = 0 then return_flag S2 SUNLS_PACKAGE_FAIL_REC
              else if r_less ar (klu_common_rcond K (common S2)) uround_twothirds then
                let (retval3, S3) = call_condest K S2 A
                in if retval3 = 0 then return_flag S3 SUNLS_PACKAGE_FAIL_REC
                   else if r_greater ar (klu_common_condest K (common S3))
                             (r_div ar (RCONST ar ONE) uround_twothirds) then
                     let S4 = call_free_numeric K S3;
                         S5 = call_factor K S4 A
                     in if numeric S5 = None then return_flag S5 SUNLS_PACKAGE_FAIL_UNREC
                        else return_flag S5 SUNLS_SUCCESS
                   else return_flag S3 SUNLS_SUCCESS
              else return_flag S2 SUNLS_SUCCESS)"

text \<open>
  \<open>SUNLinSolSetup_KLU\<close> (lines 273-378). \<open>SUNRpowerR\<close> (sundials\_math) and the
  precision-dependent macro \<open>UNIT_ROUNDOFF\<close> are parameters.
\<close>

definition SUNLinSolSetup_KLU ::
  "'r realtype_arith \<Rightarrow> ('sym, 'num, 'com, 'r) klu_library \<Rightarrow> ('r \<Rightarrow> 'r \<Rightarrow> 'r) \<Rightarrow> 'r
    \<Rightarrow> ('sym, 'num, 'com) SUNLinearSolverContent_KLU \<Rightarrow> SUNMatrix
    \<Rightarrow> sunls_flag \<times> ('sym, 'num, 'com) SUNLinearSolverContent_KLU" where
  "SUNLinSolSetup_KLU ar K SUNRpowerR UNIT_ROUNDOFF S A =
     (let uround_twothirds = SUNRpowerR UNIT_ROUNDOFF (RCONST ar TWOTHIRDS)
      in if SUNMatGetID A \<noteq> SUNMATRIX_SPARSE then return_flag S SUNLS_ILL_INPUT
         else if first_factorize S then setup_first_factorize K S A
         else setup_refactor ar K uround_twothirds S A)"

text \<open>
  \<open>SUNLinSolSolve_KLU\<close> (lines 381-412). The handles are pointers (\<open>None\<close> is NULL); the
  result is the return value, the solver content and the vector \<open>x\<close> after the call.
\<close>

definition SUNLinSolSolve_KLU ::
  "('sym, 'num, 'com) SUNLinearSolverContent_KLU option \<Rightarrow> SUNMatrix option
    \<Rightarrow> N_Vector option \<Rightarrow> N_Vector option \<Rightarrow> realtype
    \<Rightarrow> sunls_flag \<times> ('sym, 'num, 'com) SUNLinearSolverContent_KLU option \<times> N_Vector option" where
  "SUNLinSolSolve_KLU S A x b tol =
     (case (A, S, x, b) of
        (Some Am, Some Sm, Some xv, Some bv) \<Rightarrow>
          (let x1 = N_VScale ONE bv xv
           in case N_VGetArrayPointer x1 of
                None \<Rightarrow> (SUNLS_MEM_FAIL, Some (Sm\<lparr>last_flag := SUNLS_MEM_FAIL\<rparr>), Some x1)
              | Some xdata \<Rightarrow>
                  (let (flag, xdata', c) =
                         klu_solver Sm (symbolic Sm) (numeric Sm) (SM_NP_S Am) 1 xdata (common Sm);
                       S1 = Sm\<lparr>common := c, klu_calls := klu_calls Sm @ [KLU_SOLVE]\<rparr>;
                       x2 = x1\<lparr>nv_elems := xdata'\<rparr>
                   in if flag = 0
                      then (SUNLS_PACKAGE_FAIL_REC,
                            Some (S1\<lparr>last_flag := SUNLS_PACKAGE_FAIL_REC\<rparr>), Some x2)
                      else (SUNLS_SUCCESS, Some (S1\<lparr>last_flag := SUNLS_SUCCESS\<rparr>), Some x2)))
      | _ \<Rightarrow> (SUNLS_MEM_NULL, S, x))"


section \<open>The KINBAND linear solver (kinsol/source/kinsol\_band.c)\<close>

subsection \<open>Data model\<close>

text \<open>The \<open>KINBAND_*\<close> return codes, kept symbolic (their header is not among the sources).\<close>

datatype kinband_flag =
    KINBAND_SUCCESS
  | KINBAND_MEM_NULL
  | KINBAND_LMEM_NULL
  | KINBAND_ILL_INPUT
  | KINBAND_MEM_FAIL

text \<open>
  Modelled from the spec: the type \<open>BandMat\<close> with its access macros \<open>BAND_COL\<close> and
  \<open>BAND_COL_ELEM\<close> (their header is not among the sources), as the banded matrix the spec
  describes: the element in row \<open>i\<close> of column \<open>j\<close> is the value at \<open>(i, j)\<close>.
\<close>

type_synonym 'r BandMat = "int \<times> int \<Rightarrow> 'r"

text \<open>The routines that the function-pointer fields can hold.\<close>

datatype kin_routine =
    FN_KINBandInit
  | FN_KINBandSetup
  | FN_KINBandSolve
  | FN_KINBandFree
  | FN_KINBandDQJac
  | FN_other nat

text \<open>
  \<open>KINBandMemRec\<close>, with the field names behind the readability macros \<open>n\<close>, \<open>jac\<close>,
  \<open>J\<close>, \<open>mu\<close>, \<open>ml\<close>, \<open>storage_mu\<close>, \<open>pivots\<close>, \<open>nje\<close>, \<open>nfeB\<close>, \<open>last_flag\<close>.
  (\<open>b_J_data\<close> points back to the solver memory and is left out.)
\<close>

record 'r KINBandMemRec =
  b_n :: int
  b_jac :: "kin_routine option"
  b_J :: "'r BandMat option"
  b_mu :: int
  b_ml :: int
  b_storage_mu :: int
  b_pivots :: "int list option"
  b_nje :: int
  b_nfeB :: int
  b_last_flag :: kinband_flag

text \<open>
  The fields of the solver memory \<open>KINMem\<close> that kinsol\_band.c uses. \<open>kin_func\<close> is the
  user's system function \<open>F\<close>, taken to be a function of the vector it is given.
  \<open>kin_func_args\<close> is not a field of the C structure: it is the log of the vectors at
  which \<open>func\<close> has been called.
\<close>

record 'r KINMemRec =
  kin_func :: "'r list \<Rightarrow> 'r list"
  kin_uscale :: "'r list"
  kin_sqrt_relfunc :: 'r
  kin_vtemp1 :: N_Vector
  kin_linit :: "kin_routine option"
  kin_lsetup :: "kin_routine option"
  kin_lsolve :: "kin_routine option"
  kin_lfree :: "kin_routine option"
  kin_lmem :: "'r KINBandMemRec option"
  kin_setupNonNull :: bool
  kin_inexact_ls :: bool
  kin_func_args :: "'r list list"

subsection \<open>The constructor \<open>KINBand\<close>\<close>

text \<open>
  \<open>KINBand\<close> (lines 117-194). Parameters of the model: \<open>call_lfree\<close> runs the routine
  held by \<open>lfree\<close> on the solver memory; \<open>malloc_KINBandMem\<close> is what
  \<open>malloc(sizeof(KINBandMemRec))\<close> returns (a record with arbitrary contents, or NULL);
  \<open>BandAllocMat\<close> and \<open>BandAllocPiv\<close> are the allocators of the band package. Messages
  printed to \<open>errfp\<close> are not modelled. The result is the return value and the solver
  memory after the call. The arguments \<open>N\<close>, \<open>mupper\<close> and \<open>mlower\<close> are \<open>long int\<close>s;
  \<open>N-1\<close> and \<open>mu + ml\<close> (line 172) are computed in \<open>long int\<close> arithmetic.
\<close>

definition KINBand ::
  "(kin_routine \<Rightarrow> 'r KINMemRec \<Rightarrow> 'r KINMemRec) \<Rightarrow> 'r KINBandMemRec option
    \<Rightarrow> (int \<Rightarrow> int \<Rightarrow> int \<Rightarrow> int \<Rightarrow> 'r BandMat option) \<Rightarrow> (int \<Rightarrow> int list option)
    \<Rightarrow> 'r KINMemRec option \<Rightarrow> int \<Rightarrow> int \<Rightarrow> int \<Rightarrow> kinband_flag \<times> 'r KINMemRec option" where
  "KINBand call_lfree malloc_KINBandMem BandAllocMat BandAllocPiv kinmem N mupper mlower =
     (case kinmem of
        None \<Rightarrow> (KINBAND_MEM_NULL, None)
      | Some kin_mem \<Rightarrow>
          if \<not> nv_array (kin_vtemp1 kin_mem) then (KINBAND_ILL_INPUT, Some kin_mem)
          else
            let km1 = (case kin_lfree kin_mem of
                         None \<Rightarrow> kin_mem
                       | Some f \<Rightarrow> call_lfree f kin_mem);
                km2 = km1\<lparr>kin_linit := Some FN_KINBandInit,
                          kin_lsetup := Some FN_KINBandSetup,
                          kin_lsolve := Some FN_KINBandSolve,
                          kin_lfree := Some FN_KINBandFree\<rparr>
            in (case malloc_KINBandMem of
                 None \<Rightarrow> (KINBAND_MEM_FAIL, Some km2)
               | Some kb0 \<Rightarrow>
                   let kb1 = kb0\<lparr>b_jac := Some FN_KINBandDQJac,
                                 b_last_flag := KINBAND_SUCCESS\<rparr>;
                       km3 = km2\<lparr>kin_setupNonNull := True\<rparr>;
                       kb2 = kb1\<lparr>b_n := N, b_ml := mlower, b_mu := mupper\<rparr>
                   in if b_ml kb2 < 0 \<or> b_mu kb2 < 0 \<or> b_ml kb2 \<ge> N \<or> b_mu kb2 \<ge> N
                      then (KINBAND_ILL_INPUT, Some km3)
                      else
                        let kb3 = kb2\<lparr>b_storage_mu :=
                                        min (long_wrap (N - 1))
                                            (long_wrap (b_mu kb2 + b_ml kb2))\<rparr>;
                            kb4 = kb3\<lparr>b_J := BandAllocMat N (b_mu kb3) (b_ml kb3)
                                                (b_storage_mu kb3)\<rparr>
                        in if b_J kb4 = None then (KINBAND_MEM_FAIL, Some km3)
                           else
                             let kb5 = kb4\<lparr>b_pivots := BandAllocPiv N\<rparr>
                             in if b_pivots kb5 = None then (KINBAND_MEM_FAIL, Some km3)
                                else (KINBAND_SUCCESS,
                                      Some (km3\<lparr>kin_inexact_ls := False,
                                                kin_lmem := Some kb5\<rparr>))))"

subsection \<open>The difference-quotient Jacobian \<open>KINBandDQJac\<close>\<close>

text \<open>
  The vectors are the data arrays behind the \<open>N_Vector\<close>s, indexed from 0; their
  components are values of the arithmetic \<open>ar\<close>. In this function \<open>long int\<close> is
  \<open>int\<close>: the sums \<open>mlower + mupper + 1\<close> and \<open>j + width\<close> stay below \<open>LONG_MAX\<close>
  whenever \<open>n + mlower + mupper\<close> does.
\<close>

text \<open>
  Modelled from the spec: the vector capability's \<open>scale(c, x)\<close> on the data arrays, in
  the arithmetic \<open>ar\<close>. Scaling by the constant \<open>ONE\<close> is the copy (line 513 of the
  source: ``Load utemp with u''; in floating-point arithmetic the product of 1 and a value
  is that value).
\<close>

definition N_VScale_data :: "'r realtype_arith \<Rightarrow> 'r \<Rightarrow> 'r list \<Rightarrow> 'r list" where
  "N_VScale_data ar c x_data =
     (if c = RCONST ar ONE then x_data else map (r_mul ar c) x_data)"

text \<open>The increment of column \<open>j\<close> (lines 524 and 535).\<close>

definition dq_inc :: "'r realtype_arith \<Rightarrow> 'r \<Rightarrow> 'r list \<Rightarrow> 'r list \<Rightarrow> int \<Rightarrow> 'r" where
  "dq_inc ar sqrt_relfunc u_data uscale_data j =
     r_mul ar sqrt_relfunc
       (r_max ar (r_abs ar (u_data ! nat j)) (r_abs ar (uscale_data ! nat j)))"

text \<open>
  The loop of lines 523-526, \<open>for (j = group-1; j < n; j += width)\<close>, started at \<open>j\<close>.
  The loop is reached only inside the loop over the groups, where
  \<open>1 \<le> group \<le> ngroups = MIN(width, n)\<close> and so \<open>0 < width\<close>; the model writes
  \<open>0 < width\<close> into the loop test, which makes the recursion total.
\<close>

function dq_increment ::
  "'r realtype_arith \<Rightarrow> 'r \<Rightarrow> 'r list \<Rightarrow> 'r list \<Rightarrow> int \<Rightarrow> int \<Rightarrow> int \<Rightarrow> 'r list
    \<Rightarrow> 'r list" where
  "dq_increment ar sqrt_relfunc u_data uscale_data n width j utemp_data =
     (if j < n \<and> 0 < width then
        let inc = dq_inc ar sqrt_relfunc u_data uscale_data j
        in dq_increment ar sqrt_relfunc u_data uscale_data n width (j + width)
             (utemp_data[nat j := r_add ar (utemp_data ! nat j) inc])
      else utemp_data)"
  by pat_completeness auto
termination
  by (relation "measure (\<lambda>(ar, sqrt_relfunc, u_data, uscale_data, n, width, j, utemp_data).
        nat (n - j))") auto

declare dq_increment.simps [simp del]

text \<open>The loop of lines 539-541, \<open>for (i = i1; i <= i2; i++)\<close>, started at \<open>i\<close>.\<close>

function dq_column ::
  "'r realtype_arith \<Rightarrow> 'r \<Rightarrow> 'r list \<Rightarrow> 'r list \<Rightarrow> int \<Rightarrow> int \<Rightarrow> int \<Rightarrow> 'r BandMat
    \<Rightarrow> 'r BandMat" where
  "dq_column ar inc_inv futemp_data fu_data j i2 i J =
     (if i \<le> i2 then
        dq_column ar inc_inv futemp_data fu_data j i2 (i + 1)
          (J((i, j) := r_mul ar inc_inv (r_sub ar (futemp_data ! nat i) (fu_data ! nat i))))
      else J)"
  by pat_completeness auto
termination
  by (relation "measure (\<lambda>(ar, inc_inv, futemp_data, fu_data, j, i2, i, J).
        nat (i2 + 1 - i))") auto

declare dq_column.simps [simp del]

text \<open>
  The loop of lines 532-542, started at \<open>j\<close>: restore \<open>utemp\<close>, then form and load the
  difference quotients of column \<open>j\<close>.
\<close>

function dq_quotients ::
  "'r realtype_arith \<Rightarrow> 'r \<Rightarrow> 'r list \<Rightarrow> 'r list \<Rightarrow> 'r list \<Rightarrow> 'r list
    \<Rightarrow> int \<Rightarrow> int \<Rightarrow> int \<Rightarrow> int \<Rightarrow> int \<Rightarrow> 'r list \<times> 'r BandMat
    \<Rightarrow> 'r list \<times> 'r BandMat" where
  "dq_quotients ar sqrt_relfunc u_data uscale_data fu_data futemp_data n mupper mlower width j
       (utemp_data, J) =
     (if j < n \<and> 0 < width then
        let utemp_data' = utemp_data[nat j := u_data ! nat j];
            inc = dq_inc ar sqrt_relfunc u_data uscale_data j;
            inc_inv = r_div ar (RCONST ar ONE) inc;
            i1 = max 0 (j - mupper);
            i2 = min (j + mlower) (n - 1);
            J' = dq_column ar inc_inv futemp_data fu_data j i2 i1 J
        in dq_quotients ar sqrt_relfunc u_data uscale_data fu_data futemp_data n mupper mlower
             width (j + width) (utemp_data', J')
      else (utemp_data, J))"
  by pat_completeness auto
termination
  by (relation "measure (\<lambda>(ar, sqrt_relfunc, u_data, uscale_data, fu_data, futemp_data, n,
        mupper, mlower, width, j, st). nat (n - j))") auto

declare dq_quotients.simps [simp del]

text \<open>
  The loop over the groups, lines 520-543, started at group \<open>grp\<close>. The state is \<open>utemp\<close>,
  \<open>futemp\<close>, \<open>J\<close> and the log of the calls of \<open>func\<close>.
\<close>

function dq_groups ::
  "'r realtype_arith \<Rightarrow> ('r list \<Rightarrow> 'r list) \<Rightarrow> 'r \<Rightarrow> 'r list \<Rightarrow> 'r list
    \<Rightarrow> 'r list \<Rightarrow> int \<Rightarrow> int \<Rightarrow> int \<Rightarrow> int \<Rightarrow> int \<Rightarrow> int
    \<Rightarrow> 'r list \<times> 'r list \<times> 'r BandMat \<times> 'r list list
    \<Rightarrow> 'r list \<times> 'r list \<times> 'r BandMat \<times> 'r list list" where
  "dq_groups ar func sqrt_relfunc u_data uscale_data fu_data n mupper mlower width ngroups grp
       (utemp_data, futemp_data, J, args) =
     (if grp \<le> ngroups then
        let utemp1 = dq_increment ar sqrt_relfunc u_data uscale_data n width (grp - 1)
                       utemp_data;
            futemp1 = func utemp1;
            (utemp2, J2) = dq_quotients ar sqrt_relfunc u_data uscale_data fu_data futemp1 n
                             mupper mlower width (grp - 1) (utemp1, J)
        in dq_groups ar func sqrt_relfunc u_data uscale_data fu_data n mupper mlower width
             ngroups (grp + 1) (utemp2, futemp1, J2, args @ [utemp1])
      else (utemp_data, futemp_data, J, args))"
  by pat_completeness auto
termination
  by (relation "measure (\<lambda>(ar, func, sqrt_relfunc, u_data, uscale_data, fu_data, n, mupper,
        mlower, width, ngroups, grp, st). nat (ngroups + 1 - grp))") auto

declare dq_groups.simps [simp del]

text \<open>
  \<open>KINBandDQJac\<close> (lines 486-549). \<open>jac_data\<close> is the solver memory. The result is
  \<open>None\<close> when \<open>lmem\<close> is NULL (the C code then dereferences a null pointer at line 546);
  otherwise it holds the return value, the matrix \<open>J\<close>, the arrays of \<open>u\<close>, \<open>tmp1\<close>
  (\<open>futemp\<close>) and \<open>tmp2\<close> (\<open>utemp\<close>), and the solver memory after the call.
\<close>

definition KINBandDQJac ::
  "'r realtype_arith \<Rightarrow> int \<Rightarrow> int \<Rightarrow> int \<Rightarrow> 'r BandMat \<Rightarrow> 'r list \<Rightarrow> 'r list
    \<Rightarrow> 'r KINMemRec \<Rightarrow> 'r list \<Rightarrow> 'r list
    \<Rightarrow> (int \<times> 'r BandMat \<times> 'r list \<times> 'r list \<times> 'r list \<times> 'r KINMemRec) option" where
  "KINBandDQJac ar n mupper mlower J u_data fu_data kin_mem tmp1 tmp2 =
     (let futemp_data = tmp1;
          utemp_data = N_VScale_data ar (RCONST ar ONE) u_data;
          width = mlower + mupper + 1;
          ngroups = min width n;
          (utemp', futemp', J', args') =
            dq_groups ar (kin_func kin_mem) (kin_sqrt_relfunc kin_mem) u_data
              (kin_uscale kin_mem) fu_data n mupper mlower width ngroups 1
              (utemp_data, futemp_data, J, kin_func_args kin_mem)
      in case kin_lmem kin_mem of
           None \<Rightarrow> None
         | Some kinband_mem \<Rightarrow>
             Some (0, J', u_data, futemp', utemp',
                   kin_mem\<lparr>kin_lmem := Some (kinband_mem\<lparr>b_nfeB := b_nfeB kinband_mem + ngroups\<rparr>),
                           kin_func_args := args'\<rparr>))"

text \<open>
  The vector at which the spec has the function evaluated for group \<open>g\<close>: every column
  \<open>k\<close> with \<open>k mod width = g\<close> is incremented by its own \<open>inc\<close>, the others are those of
  \<open>u\<close>.
\<close>

definition dq_perturbed ::
  "'r realtype_arith \<Rightarrow> 'r \<Rightarrow> 'r list \<Rightarrow> 'r list \<Rightarrow> int \<Rightarrow> int \<Rightarrow> 'r list" where
  "dq_perturbed ar sqrt_relfunc u_data uscale_data width g =
     map (\<lambda>k. if int k mod width = g
              then r_add ar (u_data ! k) (dq_inc ar sqrt_relfunc u_data uscale_data (int k))
              else u_data ! k) [0..<length u_data]"


section \<open>Concrete inputs\<close>

subsection \<open>Arithmetics\<close>

text \<open>
  Exact arithmetic on the reals, used to run the KLU model on values for which the
  comparisons of setup come out the same in floating point.
\<close>

definition stub_real_arith :: "real realtype_arith" where
  "stub_real_arith =
     \<lparr>RCONST = (\<lambda>x. x), r_add = (+), r_sub = (-), r_mul = (*), r_div = (/),
      r_less = (<), r_greater = (>), r_abs = abs, r_max = max\<rparr>"

text \<open>
  A stand-in for IEEE double arithmetic, used to run the difference-quotient Jacobian. A
  value is a real number or \<open>NonFinite\<close> (an infinity or a NaN). An operation on finite
  values is exact; its result is \<open>NonFinite\<close> when its magnitude reaches \<open>2\<^sup>1\<^sup>0\<^sup>2\<^sup>4\<close>
  (overflow) and when it is a division by zero. So it returns what double arithmetic
  returns whenever the operands are doubles and the exact result is a double, overflows, or
  is a division by zero; the runs below involve no other operation on finite values. An
  operation on a \<open>NonFinite\<close> value gives \<open>NonFinite\<close>, and a comparison with one is false
  (no run below divides by, or compares with, a non-finite value). \<open>stub_max\<close> is the
  macro \<open>MAX(A, B) = ((A) > (B) ? (A) : (B))\<close>.
\<close>

datatype stub_realtype = Finite real | NonFinite

definition stub_result :: "real \<Rightarrow> stub_realtype" where
  "stub_result x = (if \<bar>x\<bar> < 2 ^ 1024 then Finite x else NonFinite)"

fun stub_add :: "stub_realtype \<Rightarrow> stub_realtype \<Rightarrow> stub_realtype" where
  "stub_add (Finite a) (Finite b) = stub_result (a + b)"
| "stub_add a b = NonFinite"

fun stub_sub :: "stub_realtype \<Rightarrow> stub_realtype \<Rightarrow> stub_realtype" where
  "stub_sub (Finite a) (Finite b) = stub_result (a - b)"
| "stub_sub a b = NonFinite"

fun stub_mul :: "stub_realtype \<Rightarrow> stub_realtype \<Rightarrow> stub_realtype" where
  "stub_mul (Finite a) (Finite b) = stub_result (a * b)"
| "stub_mul a b = NonFinite"

fun stub_div :: "stub_realtype \<Rightarrow> stub_realtype \<Rightarrow> stub_realtype" where
  "stub_div (Finite a) (Finite b) = (if b = 0 then NonFinite else stub_result (a / b))"
| "stub_div a b = NonFinite"

fun stub_less :: "stub_realtype \<Rightarrow> stub_realtype \<Rightarrow> bool" where
  "stub_less (Finite a) (Finite b) = (a < b)"
| "stub_less a b = False"

fun stub_abs :: "stub_realtype \<Rightarrow> stub_realtype" where
  "stub_abs (Finite a) = Finite \<bar>a\<bar>"
| "stub_abs NonFinite = NonFinite"

definition stub_max :: "stub_realtype \<Rightarrow> stub_realtype \<Rightarrow> stub_realtype" where
  "stub_max a b = (if stub_less b a then a else b)"

definition stub_arith :: "stub_realtype realtype_arith" where
  "stub_arith =
     \<lparr>RCONST = stub_result, r_add = stub_add, r_sub = stub_sub, r_mul = stub_mul,
      r_div = stub_div, r_less = stub_less, r_greater = (\<lambda>a b. stub_less b a),
      r_abs = stub_abs, r_max = stub_max\<rparr>"

subsection \<open>A KLU package\<close>

text \<open>
  A small stand-in for the KLU package, used to run the model on concrete inputs. A numeric
  object is a pivot position with the factored values; \<open>stub_factor\<close> pivots on the first
  nonzero value, \<open>stub_refactor\<close> keeps the old pivot position and fails when the value
  there is zero. The common block is the pair \<open>(rcond, condest)\<close>.
\<close>

fun first_nonzero :: "realtype list \<Rightarrow> nat option" where
  "first_nonzero [] = None"
| "first_nonzero (v # vs) = (if v \<noteq> 0 then Some 0 else map_option Suc (first_nonzero vs))"

type_synonym stub_numeric = "nat \<times> realtype list"

type_synonym stub_common = "real \<times> real"

definition stub_analyze :: "int \<Rightarrow> int list \<Rightarrow> int list \<Rightarrow> stub_common \<Rightarrow> int option \<times> stub_common" where
  "stub_analyze n Ap Ai c = (if n \<le> 0 then None else Some n, c)"

definition stub_factor ::
  "int list \<Rightarrow> int list \<Rightarrow> realtype list \<Rightarrow> int option \<Rightarrow> stub_common
    \<Rightarrow> stub_numeric option \<times> stub_common" where
  "stub_factor Ap Ai Ax Symbolic c =
     (case (Symbolic, first_nonzero Ax) of
        (Some s, Some p) \<Rightarrow> (Some (p, Ax), c)
      | _ \<Rightarrow> (None, c))"

definition stub_refactor ::
  "int list \<Rightarrow> int list \<Rightarrow> realtype list \<Rightarrow> int option \<Rightarrow> stub_numeric option \<Rightarrow> stub_common
    \<Rightarrow> int \<times> stub_numeric option \<times> stub_common" where
  "stub_refactor Ap Ai Ax Symbolic Numeric c =
     (case (Symbolic, Numeric) of
        (Some s, Some (p, vals)) \<Rightarrow>
          if p < length Ax \<and> Ax ! p \<noteq> 0 then (1, Some (p, Ax), c) else (0, Numeric, c)
      | _ \<Rightarrow> (0, Numeric, c))"

definition stub_rcond ::
  "int option \<Rightarrow> stub_numeric option \<Rightarrow> stub_common \<Rightarrow> int \<times> stub_common" where
  "stub_rcond Symbolic Numeric c =
     (case Numeric of
        None \<Rightarrow> (0, c)
      | Some (p, vals) \<Rightarrow> (1, (\<bar>vals ! p\<bar> / sum_list (map abs vals), snd c)))"

definition stub_condest ::
  "int list \<Rightarrow> realtype list \<Rightarrow> int option \<Rightarrow> stub_numeric option \<Rightarrow> stub_common
    \<Rightarrow> int \<times> stub_common" where
  "stub_condest Ap Ax Symbolic Numeric c =
     (case Numeric of
        None \<Rightarrow> (0, c)
      | Some (p, vals) \<Rightarrow> (1, (fst c, sum_list (map abs Ax) / \<bar>vals ! p\<bar>)))"

definition stub_solve ::
  "int option \<Rightarrow> stub_numeric option \<Rightarrow> int \<Rightarrow> int \<Rightarrow> realtype list \<Rightarrow> stub_common
    \<Rightarrow> int \<times> realtype list \<times> stub_common" where
  "stub_solve Symbolic Numeric n nrhs xdata c =
     (case Numeric of
        None \<Rightarrow> (0, xdata, c)
      | Some (p, vals) \<Rightarrow> (1, map (\<lambda>v. v / vals ! p) xdata, c))"

definition stub_klu :: "(int, stub_numeric, stub_common, real) klu_library" where
  "stub_klu =
     \<lparr>sun_klu_analyze = stub_analyze,
      sun_klu_factor = stub_factor,
      sun_klu_refactor = stub_refactor,
      sun_klu_rcond = stub_rcond,
      sun_klu_condest = stub_condest,
      sun_klu_free_symbolic = (\<lambda>Symbolic c. c),
      sun_klu_free_numeric = (\<lambda>Numeric c. c),
      klu_common_rcond = fst,
      klu_common_condest = snd\<rparr>"

text \<open>A sparse matrix with two stored values.\<close>

definition stub_matrix :: "realtype list \<Rightarrow> SUNMatrix" where
  "stub_matrix vals =
     \<lparr>SUNMatGetID = SUNMATRIX_SPARSE, SM_NP_S = 2, SM_DATA_S = vals,
      SM_INDEXVALS_S = [0, 1], SM_INDEXPTRS_S = [0, 1, 2]\<rparr>"

text \<open>
  The solver content after a successful first factorization of the values \<open>[1, 1]\<close>
  (pivot position 0).
\<close>

definition stub_content :: "(int, stub_numeric, stub_common) SUNLinearSolverContent_KLU" where
  "stub_content =
     \<lparr>last_flag = SUNLS_SUCCESS, first_factorize = False, symbolic = Some 2,
      numeric = Some (0, [1, 1]), common = (1, 1), klu_solver = stub_solve, klu_calls = []\<rparr>"

text \<open>
  With \<open>UNIT_ROUNDOFF\<close> \<open>2\<^sup>-\<^sup>2\<^sup>1\<close> the threshold \<open>UNIT_ROUNDOFF\<^bsup>2/3\<^esup>\<close> is \<open>2\<^sup>-\<^sup>1\<^sup>4\<close>;
  \<open>stub_power\<close> returns it for these arguments.
\<close>

definition stub_UNIT_ROUNDOFF :: real where
  "stub_UNIT_ROUNDOFF = 1 / 2097152"

definition stub_power :: "real \<Rightarrow> real \<Rightarrow> real" where
  "stub_power b e = (if b = stub_UNIT_ROUNDOFF \<and> e = TWOTHIRDS then 1 / 16384 else 1)"






subsection \<open>A KINSOL problem\<close>

text \<open>
  A KINSOL problem with \<open>F(u) = 2u\<close>, \<open>sqrt_relfunc = 2\<^sup>-\<^sup>1\<^sup>0\<close>, and a band solver memory
  of dimension 10 with half-bandwidths 1 and an empty band matrix.
\<close>

definition stub_kinband_mem :: "stub_realtype KINBandMemRec" where
  "stub_kinband_mem =
     \<lparr>b_n = 10, b_jac = Some FN_KINBandDQJac, b_J = None, b_mu = 1, b_ml = 1,
      b_storage_mu = 2, b_pivots = None, b_nje = 0, b_nfeB = 0,
      b_last_flag = KINBAND_SUCCESS\<rparr>"

definition stub_kin_mem :: "stub_realtype \<Rightarrow> stub_realtype list \<Rightarrow> stub_realtype KINMemRec" where
  "stub_kin_mem sqrt_relfunc uscale =
     \<lparr>kin_func = map (stub_mul (Finite 2)), kin_uscale = uscale,
      kin_sqrt_relfunc = sqrt_relfunc,
      kin_vtemp1 = \<lparr>nv_elems = replicate (length uscale) 0, nv_array = True\<rparr>,
      kin_linit = None, kin_lsetup = None, kin_lsolve = None, kin_lfree = None,
      kin_lmem = Some stub_kinband_mem, kin_setupNonNull = False, kin_inexact_ls = True,
      kin_func_args = []\<rparr>"

definition stub_sqrt_relfunc :: stub_realtype where
  "stub_sqrt_relfunc = Finite (1 / 1024)"

definition stub_ones :: "stub_realtype list" where
  "stub_ones = map Finite [1, 1, 1, 1, 1, 1, 1, 1, 1, 1]"

definition stub_twos :: "stub_realtype list" where
  "stub_twos = map Finite [2, 2, 2, 2, 2, 2, 2, 2, 2, 2]"

definition BandZero :: "stub_realtype BandMat" where
  "BandZero = (\<lambda>ij. Finite 0)"

definition stub_BandAllocMat :: "int \<Rightarrow> int \<Rightarrow> int \<Rightarrow> int \<Rightarrow> stub_realtype BandMat option" where
  "stub_BandAllocMat N mu ml smu = (if N \<le> 0 then None else Some BandZero)"

definition stub_BandAllocPiv :: "int \<Rightarrow> int list option" where
  "stub_BandAllocPiv N = (if N \<le> 0 then None else Some (replicate (nat N) 0))"

section \<open>Properties of the KLU solver\<close>

lemmas stub_klu_defs =
  stub_klu_def stub_matrix_def stub_content_def stub_solve_def stub_analyze_def stub_factor_def
  stub_refactor_def stub_rcond_def stub_condest_def stub_power_def stub_UNIT_ROUNDOFF_def
  stub_real_arith_def


lemmas klu_call_defs =
  call_free_symbolic_def call_free_numeric_def call_analyze_def call_factor_def
  call_refactor_def call_rcond_def call_condest_def return_flag_def

lemmas klu_setup_defs =
  SUNLinSolSetup_KLU_def setup_first_factorize_def setup_refactor_def

subsection \<open>The library calls of setup\<close>

lemma call_refactor_calls:
  "klu_calls (snd (call_refactor K S A)) = klu_calls S @ [KLU_REFACTOR]"
  by (simp add: call_refactor_def split: prod.splits)

lemma call_refactor_symbolic: "symbolic (snd (call_refactor K S A)) = symbolic S"
  by (simp add: call_refactor_def split: prod.splits)

lemma call_rcond_calls: "klu_calls (snd (call_rcond K S)) = klu_calls S @ [KLU_RCOND]"
  by (simp add: call_rcond_def split: prod.splits)

lemma call_rcond_numeric: "numeric (snd (call_rcond K S)) = numeric S"
  by (simp add: call_rcond_def split: prod.splits)

lemma call_condest_calls:
  "klu_calls (snd (call_condest K S A)) = klu_calls S @ [KLU_CONDEST]"
  by (simp add: call_condest_def split: prod.splits)

lemma call_condest_numeric: "numeric (snd (call_condest K S A)) = numeric S"
  by (simp add: call_condest_def split: prod.splits)

lemma call_factor_calls: "klu_calls (call_factor K S A) = klu_calls S @ [KLU_FACTOR]"
  by (simp add: call_factor_def split: prod.splits)

lemma call_free_numeric_calls:
  "klu_calls (call_free_numeric K S) = klu_calls S @ [KLU_FREE_NUMERIC]"
  by (simp add: call_free_numeric_def)

text \<open>What each call passes to the library and what it stores.\<close>

lemma call_refactor_eq:
  "call_refactor K S A =
     (fst (sun_klu_refactor K (SM_INDEXPTRS_S A) (SM_INDEXVALS_S A) (SM_DATA_S A)
             (symbolic S) (numeric S) (common S)),
      S\<lparr>numeric := fst (snd (sun_klu_refactor K (SM_INDEXPTRS_S A) (SM_INDEXVALS_S A)
                               (SM_DATA_S A) (symbolic S) (numeric S) (common S))),
        common := snd (snd (sun_klu_refactor K (SM_INDEXPTRS_S A) (SM_INDEXVALS_S A)
                              (SM_DATA_S A) (symbolic S) (numeric S) (common S))),
        klu_calls := klu_calls S @ [KLU_REFACTOR]\<rparr>)"
  by (simp add: call_refactor_def case_prod_beta)

lemma call_rcond_eq:
  "call_rcond K S =
     (fst (sun_klu_rcond K (symbolic S) (numeric S) (common S)),
      S\<lparr>common := snd (sun_klu_rcond K (symbolic S) (numeric S) (common S)),
        klu_calls := klu_calls S @ [KLU_RCOND]\<rparr>)"
  by (simp add: call_rcond_def case_prod_beta)

lemma call_condest_eq:
  "call_condest K S A =
     (fst (sun_klu_condest K (SM_INDEXPTRS_S A) (SM_DATA_S A) (symbolic S) (numeric S)
             (common S)),
      S\<lparr>common := snd (sun_klu_condest K (SM_INDEXPTRS_S A) (SM_DATA_S A) (symbolic S)
                         (numeric S) (common S)),
        klu_calls := klu_calls S @ [KLU_CONDEST]\<rparr>)"
  by (simp add: call_condest_def case_prod_beta)

lemma call_factor_eq:
  "call_factor K S A =
     S\<lparr>numeric := fst (sun_klu_factor K (SM_INDEXPTRS_S A) (SM_INDEXVALS_S A) (SM_DATA_S A)
                         (symbolic S) (common S)),
       common := snd (sun_klu_factor K (SM_INDEXPTRS_S A) (SM_INDEXVALS_S A) (SM_DATA_S A)
                        (symbolic S) (common S)),
       klu_calls := klu_calls S @ [KLU_FACTOR]\<rparr>"
  by (simp add: call_factor_def case_prod_beta)

text \<open>
  The numeric object and the common block after the numeric object of \<open>S\<close> has been freed
  and the matrix factored anew: \<open>sun_klu_free_numeric\<close> is given the numeric object and the
  common block of \<open>S\<close>, \<open>sun_klu_factor\<close> the arrays of the matrix, the symbolic object and
  the common block that the free returned.
\<close>

lemma recompute_numeric:
  "numeric (call_factor K (call_free_numeric K S) A) =
     fst (sun_klu_factor K (SM_INDEXPTRS_S A) (SM_INDEXVALS_S A) (SM_DATA_S A) (symbolic S)
            (sun_klu_free_numeric K (numeric S) (common S)))"
  by (simp add: call_factor_eq call_free_numeric_def)

lemma recompute_common:
  "common (call_factor K (call_free_numeric K S) A) =
     snd (sun_klu_factor K (SM_INDEXPTRS_S A) (SM_INDEXVALS_S A) (SM_DATA_S A) (symbolic S)
            (sun_klu_free_numeric K (numeric S) (common S)))"
  by (simp add: call_factor_eq call_free_numeric_def)

text \<open>The branch of lines 318-374 as a decision tree over the results of the three calls.\<close>

lemma setup_refactor_cases:
  assumes "call_refactor K S A = (retval1, S1)"
    and "call_rcond K S1 = (retval2, S2)"
    and "call_condest K S2 A = (retval3, S3)"
  shows "setup_refactor ar K thr S A =
           (if retval1 = 0 then return_flag S1 SUNLS_PACKAGE_FAIL_REC
            else if retval2 = 0 then return_flag S2 SUNLS_PACKAGE_FAIL_REC
            else if r_less ar (klu_common_rcond K (common S2)) thr then
              if retval3 = 0 then return_flag S3 SUNLS_PACKAGE_FAIL_REC
              else if r_greater ar (klu_common_condest K (common S3))
                        (r_div ar (RCONST ar ONE) thr) then
                if numeric (call_factor K (call_free_numeric K S3) A) = None
                then return_flag (call_factor K (call_free_numeric K S3) A)
                       SUNLS_PACKAGE_FAIL_UNREC
                else return_flag (call_factor K (call_free_numeric K S3) A) SUNLS_SUCCESS
              else return_flag S3 SUNLS_SUCCESS
            else return_flag S2 SUNLS_SUCCESS)"
  using assms by (simp add: setup_refactor_def Let_def)



subsection \<open>Failure of the numeric re-factorization\<close>

text \<open>
  C1 (amended). On a call of setup that is not the first factorization, when the numeric
  re-factorization reports failure (returns 0), setup records and returns the recoverable
  failure code at once: the only library call it makes is the re-factorization itself, so
  no symbolic analysis and no full numeric factorization is attempted.
\<close>

theorem setup_refactor_failure_returns_recoverable:
  assumes "SUNMatGetID A = SUNMATRIX_SPARSE" and "\<not> first_factorize S"
    and "fst (call_refactor K S A) = 0"
  shows "SUNLinSolSetup_KLU ar K SUNRpowerR UNIT_ROUNDOFF S A =
           (SUNLS_PACKAGE_FAIL_REC,
            (snd (call_refactor K S A))\<lparr>last_flag := SUNLS_PACKAGE_FAIL_REC\<rparr>)
         \<and> klu_calls (snd (SUNLinSolSetup_KLU ar K SUNRpowerR UNIT_ROUNDOFF S A)) =
             klu_calls S @ [KLU_REFACTOR]"
  using assms
  by (auto simp: SUNLinSolSetup_KLU_def setup_refactor_def return_flag_def call_refactor_def
      split: prod.splits)

text \<open>
  C1, witness: the solver holds a factorization with pivot position 0, and the matrix
  values are now \<open>[0, 1]\<close>, so the re-factorization fails.
\<close>

theorem setup_refactor_failure_returns_recoverable_witness:
  "SUNMatGetID (stub_matrix [0, 1]) = SUNMATRIX_SPARSE
   \<and> \<not> first_factorize stub_content
   \<and> fst (call_refactor stub_klu stub_content (stub_matrix [0, 1])) = 0
   \<and> SUNLinSolSetup_KLU stub_real_arith stub_klu stub_power stub_UNIT_ROUNDOFF stub_content
        (stub_matrix [0, 1]) =
        (SUNLS_PACKAGE_FAIL_REC,
         (snd (call_refactor stub_klu stub_content (stub_matrix [0, 1])))
           \<lparr>last_flag := SUNLS_PACKAGE_FAIL_REC\<rparr>)
   \<and> klu_calls (snd (SUNLinSolSetup_KLU stub_real_arith stub_klu stub_power
        stub_UNIT_ROUNDOFF stub_content (stub_matrix [0, 1]))) =
        klu_calls stub_content @ [KLU_REFACTOR]"
proof -
  have a: "SUNMatGetID (stub_matrix [0, 1]) = SUNMATRIX_SPARSE"
    by (simp add: stub_matrix_def)
  have b: "\<not> first_factorize stub_content"
    by (simp add: stub_content_def)
  have c: "fst (call_refactor stub_klu stub_content (stub_matrix [0, 1])) = 0"
    by (simp add: call_refactor_def stub_klu_defs)
  show ?thesis
    using setup_refactor_failure_returns_recoverable
            [OF a b c, of stub_real_arith stub_power stub_UNIT_ROUNDOFF] a b c
    by blast
qed

text \<open>
  C1, counterexample to the claim as stated. The solver is past its first factorization,
  the re-factorization of the matrix \<open>[0, 1]\<close> fails, and a full symbolic and numeric
  factorization of the same matrix succeeds (setup started from the re-initialized solver
  returns success). Setup nevertheless returns the recoverable failure, and its log holds
  neither a symbolic analysis nor a numeric factorization.
\<close>

theorem setup_no_full_factorization_counterexample:
  "\<not> first_factorize stub_content
   \<and> fst (call_refactor stub_klu stub_content (stub_matrix [0, 1])) = 0
   \<and> fst (SUNLinSolSetup_KLU stub_real_arith stub_klu stub_power stub_UNIT_ROUNDOFF
             (stub_content\<lparr>first_factorize := True\<rparr>) (stub_matrix [0, 1])) = SUNLS_SUCCESS
   \<and> fst (SUNLinSolSetup_KLU stub_real_arith stub_klu stub_power stub_UNIT_ROUNDOFF
             stub_content (stub_matrix [0, 1])) = SUNLS_PACKAGE_FAIL_REC
   \<and> KLU_ANALYZE \<notin> set (klu_calls (snd (SUNLinSolSetup_KLU stub_real_arith stub_klu
             stub_power stub_UNIT_ROUNDOFF stub_content (stub_matrix [0, 1]))))
   \<and> KLU_FACTOR \<notin> set (klu_calls (snd (SUNLinSolSetup_KLU stub_real_arith stub_klu
             stub_power stub_UNIT_ROUNDOFF stub_content (stub_matrix [0, 1]))))"
  by (simp add: stub_klu_defs klu_call_defs klu_setup_defs)

subsection \<open>The two-tier condition estimate\<close>

text \<open>
  C2. Take a call of setup that is not the first factorization and whose numeric
  re-factorization succeeds (\<open>retval1 \<noteq> 0\<close>). Write \<open>S1\<close>, \<open>S2\<close>, \<open>S3\<close> for the solver
  after the re-factorization, after the cheap estimate run on \<open>S1\<close>, and after the
  accurate estimate run on \<open>S2\<close> (the theorem first says which library function, on
  which arguments, gives each of them), and \<open>new_calls\<close> for the library calls setup makes.
  The numeric factorization is discarded and recomputed (\<open>recompute\<close>) exactly when
  the cheap estimate is obtained with \<open>rcond < uround_twothirds\<close> and the accurate
  estimate is obtained with \<open>condest > ONE/uround_twothirds\<close>, where
  \<open>uround_twothirds = UNIT_ROUNDOFF\<^bsup>TWOTHIRDS\<^esup>\<close> and the comparisons and the quotient
  are those of \<open>realtype\<close>. Then the library's \<open>free_numeric\<close> is applied to the
  re-factorized numeric object, and the numeric object and the common block of the solver
  become what the library's \<open>factor\<close> returns for the arrays of the matrix, the symbolic
  object and the common block left by the free; setup returns success, or the
  unrecoverable failure when that numeric object is NULL. Otherwise setup calls neither
  and the re-factorized numeric object is kept. When \<open>rcond\<close> is not below the threshold,
  no accurate estimate is computed: the calls are the re-factorization and the cheap
  estimate only, and setup succeeds with the re-factorized result.
\<close>

theorem setup_recomputes_iff_both_estimates_bad:
  assumes sparse: "SUNMatGetID A = SUNMATRIX_SPARSE" and nonfirst: "\<not> first_factorize S"
    and r1: "call_refactor K S A = (retval1, S1)" and ok: "retval1 \<noteq> 0"
    and r2: "call_rcond K S1 = (retval2, S2)"
    and r3: "call_condest K S2 A = (retval3, S3)"
    and res: "SUNLinSolSetup_KLU ar K SUNRpowerR UNIT_ROUNDOFF S A = (flag, S')"
    and new: "new_calls = drop (length (klu_calls S)) (klu_calls S')"
    and thr: "uround_twothirds = SUNRpowerR UNIT_ROUNDOFF (RCONST ar TWOTHIRDS)"
    and cond: "recompute \<longleftrightarrow>
                 retval2 \<noteq> 0 \<and> r_less ar (klu_common_rcond K (common S2)) uround_twothirds
                 \<and> retval3 \<noteq> 0
                 \<and> r_greater ar (klu_common_condest K (common S3))
                      (r_div ar (RCONST ar ONE) uround_twothirds)"
  shows "retval1 = fst (sun_klu_refactor K (SM_INDEXPTRS_S A) (SM_INDEXVALS_S A) (SM_DATA_S A)
                          (symbolic S) (numeric S) (common S))
         \<and> numeric S1 = fst (snd (sun_klu_refactor K (SM_INDEXPTRS_S A) (SM_INDEXVALS_S A)
                                     (SM_DATA_S A) (symbolic S) (numeric S) (common S)))
         \<and> common S1 = snd (snd (sun_klu_refactor K (SM_INDEXPTRS_S A) (SM_INDEXVALS_S A)
                                    (SM_DATA_S A) (symbolic S) (numeric S) (common S)))
         \<and> retval2 = fst (sun_klu_rcond K (symbolic S) (numeric S1) (common S1))
         \<and> common S2 = snd (sun_klu_rcond K (symbolic S) (numeric S1) (common S1))
         \<and> retval3 = fst (sun_klu_condest K (SM_INDEXPTRS_S A) (SM_DATA_S A) (symbolic S)
                            (numeric S1) (common S2))
         \<and> common S3 = snd (sun_klu_condest K (SM_INDEXPTRS_S A) (SM_DATA_S A) (symbolic S)
                             (numeric S1) (common S2))
         \<and> (recompute \<longrightarrow>
            new_calls = [KLU_REFACTOR, KLU_RCOND, KLU_CONDEST, KLU_FREE_NUMERIC, KLU_FACTOR]
            \<and> numeric S' =
                fst (sun_klu_factor K (SM_INDEXPTRS_S A) (SM_INDEXVALS_S A) (SM_DATA_S A)
                       (symbolic S) (sun_klu_free_numeric K (numeric S1) (common S3)))
            \<and> common S' =
                snd (sun_klu_factor K (SM_INDEXPTRS_S A) (SM_INDEXVALS_S A) (SM_DATA_S A)
                       (symbolic S) (sun_klu_free_numeric K (numeric S1) (common S3)))
            \<and> flag = (if numeric S' = None then SUNLS_PACKAGE_FAIL_UNREC else SUNLS_SUCCESS)
            \<and> S' = (call_factor K (call_free_numeric K S3) A)\<lparr>last_flag := flag\<rparr>)
         \<and> (\<not> recompute \<longrightarrow>
              KLU_FREE_NUMERIC \<notin> set new_calls \<and> KLU_FACTOR \<notin> set new_calls
              \<and> numeric S' = numeric S1)
         \<and> (retval2 \<noteq> 0 \<and> \<not> r_less ar (klu_common_rcond K (common S2)) uround_twothirds \<longrightarrow>
              new_calls = [KLU_REFACTOR, KLU_RCOND]
              \<and> (flag, S') = (SUNLS_SUCCESS, S2\<lparr>last_flag := SUNLS_SUCCESS\<rparr>)
              \<and> numeric S' = numeric S1)"
proof -
  have c1: "klu_calls S1 = klu_calls S @ [KLU_REFACTOR]"
    using call_refactor_calls [of K S A] r1 by simp
  have c2: "klu_calls S2 = klu_calls S @ [KLU_REFACTOR, KLU_RCOND]"
    using call_rcond_calls [of K S1] r2 c1 by simp
  have c3: "klu_calls S3 = klu_calls S @ [KLU_REFACTOR, KLU_RCOND, KLU_CONDEST]"
    using call_condest_calls [of K S2 A] r3 c2 by simp
  have c5: "klu_calls (call_factor K (call_free_numeric K S3) A) =
              klu_calls S @ [KLU_REFACTOR, KLU_RCOND, KLU_CONDEST, KLU_FREE_NUMERIC, KLU_FACTOR]"
    by (simp add: call_factor_calls call_free_numeric_calls c3)
  have n2: "numeric S2 = numeric S1"
    using call_rcond_numeric [of K S1] r2 by simp
  have n3: "numeric S3 = numeric S1"
    using call_condest_numeric [of K S2 A] r3 n2 by simp
  have s1: "symbolic S1 = symbolic S"
    using call_refactor_symbolic [of K S A] r1 by simp
  have s3: "symbolic S3 = symbolic S"
    using r2 r3 s1 by (auto simp: call_rcond_eq call_condest_eq)
  have lib1: "retval1 = fst (sun_klu_refactor K (SM_INDEXPTRS_S A) (SM_INDEXVALS_S A)
                               (SM_DATA_S A) (symbolic S) (numeric S) (common S))
              \<and> numeric S1 = fst (snd (sun_klu_refactor K (SM_INDEXPTRS_S A) (SM_INDEXVALS_S A)
                                     (SM_DATA_S A) (symbolic S) (numeric S) (common S)))
              \<and> common S1 = snd (snd (sun_klu_refactor K (SM_INDEXPTRS_S A) (SM_INDEXVALS_S A)
                                    (SM_DATA_S A) (symbolic S) (numeric S) (common S)))"
    using r1 unfolding call_refactor_eq by auto
  have lib2: "retval2 = fst (sun_klu_rcond K (symbolic S) (numeric S1) (common S1))
              \<and> common S2 = snd (sun_klu_rcond K (symbolic S) (numeric S1) (common S1))
              \<and> symbolic S2 = symbolic S"
    using r2 s1 unfolding call_rcond_eq by auto
  have lib3: "retval3 = fst (sun_klu_condest K (SM_INDEXPTRS_S A) (SM_DATA_S A) (symbolic S)
                            (numeric S1) (common S2))
              \<and> common S3 = snd (sun_klu_condest K (SM_INDEXPTRS_S A) (SM_DATA_S A) (symbolic S)
                             (numeric S1) (common S2))"
    using r3 lib2 n2 unfolding call_condest_eq by auto
  have "(flag, S') = setup_refactor ar K uround_twothirds S A"
    using res sparse nonfirst thr by (simp add: SUNLinSolSetup_KLU_def)
  then have eq: "(flag, S') =
           (if retval2 = 0 then return_flag S2 SUNLS_PACKAGE_FAIL_REC
            else if r_less ar (klu_common_rcond K (common S2)) uround_twothirds then
              if retval3 = 0 then return_flag S3 SUNLS_PACKAGE_FAIL_REC
              else if r_greater ar (klu_common_condest K (common S3))
                        (r_div ar (RCONST ar ONE) uround_twothirds) then
                if numeric (call_factor K (call_free_numeric K S3) A) = None
                then return_flag (call_factor K (call_free_numeric K S3) A)
                       SUNLS_PACKAGE_FAIL_UNREC
                else return_flag (call_factor K (call_free_numeric K S3) A) SUNLS_SUCCESS
              else return_flag S3 SUNLS_SUCCESS
            else return_flag S2 SUNLS_SUCCESS)"
    unfolding setup_refactor_cases [OF r1 r2 r3] using ok by simp
  show ?thesis
  proof (cases recompute)
    case True
    let ?S5 = "call_factor K (call_free_numeric K S3) A"
    from True eq cond have S': "S' = ?S5\<lparr>last_flag := flag\<rparr>"
      and flag: "flag = (if numeric ?S5 = None then SUNLS_PACKAGE_FAIL_UNREC else SUNLS_SUCCESS)"
      by (auto simp: return_flag_def split: if_splits)
    have num: "numeric S' =
                fst (sun_klu_factor K (SM_INDEXPTRS_S A) (SM_INDEXVALS_S A) (SM_DATA_S A)
                       (symbolic S) (sun_klu_free_numeric K (numeric S1) (common S3)))"
      using S' recompute_numeric [of K S3 A] n3 s3 by simp
    have com: "common S' =
                snd (sun_klu_factor K (SM_INDEXPTRS_S A) (SM_INDEXVALS_S A) (SM_DATA_S A)
                       (symbolic S) (sun_klu_free_numeric K (numeric S1) (common S3)))"
      using S' recompute_common [of K S3 A] n3 s3 by simp
    have fl: "flag = (if numeric S' = None then SUNLS_PACKAGE_FAIL_UNREC else SUNLS_SUCCESS)"
      using flag S' by simp
    have calls: "new_calls =
                   [KLU_REFACTOR, KLU_RCOND, KLU_CONDEST, KLU_FREE_NUMERIC, KLU_FACTOR]"
      unfolding new using S' c5 by simp
    from True cond calls num com fl S' lib1 lib2 lib3 show ?thesis by blast
  next
    case False
    with eq cond have "(klu_calls S' = klu_calls S2 \<and> numeric S' = numeric S2)
                  \<or> (klu_calls S' = klu_calls S3 \<and> numeric S' = numeric S3
                       \<and> \<not> (retval2 \<noteq> 0
                              \<and> \<not> r_less ar (klu_common_rcond K (common S2)) uround_twothirds))"
      by (auto simp: return_flag_def split: if_splits)
    moreover have "(flag, S') = (SUNLS_SUCCESS, S2\<lparr>last_flag := SUNLS_SUCCESS\<rparr>)"
      if "retval2 \<noteq> 0 \<and> \<not> r_less ar (klu_common_rcond K (common S2)) uround_twothirds"
      using eq that by (auto simp: return_flag_def)
    ultimately have "KLU_FREE_NUMERIC \<notin> set new_calls \<and> KLU_FACTOR \<notin> set new_calls
                     \<and> numeric S' = numeric S1"
      and "retval2 \<noteq> 0
             \<and> \<not> r_less ar (klu_common_rcond K (common S2)) uround_twothirds \<longrightarrow>
           new_calls = [KLU_REFACTOR, KLU_RCOND]
           \<and> (flag, S') = (SUNLS_SUCCESS, S2\<lparr>last_flag := SUNLS_SUCCESS\<rparr>)
           \<and> numeric S' = numeric S1"
      unfolding new c2 c3 n2 n3 by auto
    with False lib1 lib2 lib3 show ?thesis by blast
  qed
qed


text \<open>
  C2, witness. With the values \<open>[2\<^sup>-\<^sup>2\<^sup>0, 1024]\<close> and the threshold \<open>2\<^sup>-\<^sup>1\<^sup>4\<close> both
  estimates are bad (\<open>rcond < 2\<^sup>-\<^sup>1\<^sup>4\<close> and \<open>condest = 2\<^sup>3\<^sup>0 + 1 > 2\<^sup>1\<^sup>4\<close>): the
  factorization is recomputed and the numeric object is the one the library's factor
  returns. With the values \<open>[1, 1]\<close> the cheap estimate is \<open>1/2\<close>, no accurate estimate is
  computed and setup succeeds with the re-factorized result.
\<close>

theorem setup_recomputes_iff_both_estimates_bad_witness:
  "SUNMatGetID (stub_matrix [1 / 1048576, 1024]) = SUNMATRIX_SPARSE
   \<and> \<not> first_factorize stub_content
   \<and> fst (call_refactor stub_klu stub_content (stub_matrix [1 / 1048576, 1024])) \<noteq> 0
   \<and> drop (length (klu_calls stub_content))
        (klu_calls (snd (SUNLinSolSetup_KLU stub_real_arith stub_klu stub_power
           stub_UNIT_ROUNDOFF stub_content (stub_matrix [1 / 1048576, 1024])))) =
        [KLU_REFACTOR, KLU_RCOND, KLU_CONDEST, KLU_FREE_NUMERIC, KLU_FACTOR]
   \<and> numeric (snd (SUNLinSolSetup_KLU stub_real_arith stub_klu stub_power
           stub_UNIT_ROUNDOFF stub_content (stub_matrix [1 / 1048576, 1024]))) =
        Some (0, [1 / 1048576, 1024])
   \<and> fst (SUNLinSolSetup_KLU stub_real_arith stub_klu stub_power
           stub_UNIT_ROUNDOFF stub_content (stub_matrix [1 / 1048576, 1024])) = SUNLS_SUCCESS
   \<and> fst (call_refactor stub_klu stub_content (stub_matrix [1, 1])) \<noteq> 0
   \<and> drop (length (klu_calls stub_content))
        (klu_calls (snd (SUNLinSolSetup_KLU stub_real_arith stub_klu stub_power
           stub_UNIT_ROUNDOFF stub_content (stub_matrix [1, 1])))) = [KLU_REFACTOR, KLU_RCOND]
   \<and> fst (SUNLinSolSetup_KLU stub_real_arith stub_klu stub_power stub_UNIT_ROUNDOFF
           stub_content (stub_matrix [1, 1])) = SUNLS_SUCCESS"
proof -
  let ?thr = "stub_power stub_UNIT_ROUNDOFF (RCONST stub_real_arith TWOTHIRDS)"
  have nonfirst: "\<not> first_factorize stub_content"
    by (simp add: stub_content_def)
  have thr: "?thr = 1 / 16384"
    by (simp add: stub_power_def stub_real_arith_def)
  have ill: "drop (length (klu_calls stub_content))
        (klu_calls (snd (SUNLinSolSetup_KLU stub_real_arith stub_klu stub_power
           stub_UNIT_ROUNDOFF stub_content (stub_matrix [1 / 1048576, 1024])))) =
        [KLU_REFACTOR, KLU_RCOND, KLU_CONDEST, KLU_FREE_NUMERIC, KLU_FACTOR]
      \<and> numeric (snd (SUNLinSolSetup_KLU stub_real_arith stub_klu stub_power
           stub_UNIT_ROUNDOFF stub_content (stub_matrix [1 / 1048576, 1024]))) =
        Some (0, [1 / 1048576, 1024])
      \<and> fst (SUNLinSolSetup_KLU stub_real_arith stub_klu stub_power
           stub_UNIT_ROUNDOFF stub_content (stub_matrix [1 / 1048576, 1024])) = SUNLS_SUCCESS"
   and ill_ok: "fst (call_refactor stub_klu stub_content (stub_matrix [1 / 1048576, 1024])) \<noteq> 0"
   and ill_sparse: "SUNMatGetID (stub_matrix [1 / 1048576, 1024]) = SUNMATRIX_SPARSE"
  proof -
    let ?A = "stub_matrix [1 / 1048576, 1024]"
    let ?r1 = "call_refactor stub_klu stub_content ?A"
    let ?r2 = "call_rcond stub_klu (snd ?r1)"
    let ?r3 = "call_condest stub_klu (snd ?r2) ?A"
    let ?res = "SUNLinSolSetup_KLU stub_real_arith stub_klu stub_power stub_UNIT_ROUNDOFF
                  stub_content ?A"
    show sparse: "SUNMatGetID ?A = SUNMATRIX_SPARSE"
      by (simp add: stub_matrix_def)
    show ok: "fst ?r1 \<noteq> 0"
      by (simp add: call_refactor_def stub_klu_defs)
    have rec: "fst ?r2 \<noteq> 0
               \<and> r_less stub_real_arith (klu_common_rcond stub_klu (common (snd ?r2))) ?thr
               \<and> fst ?r3 \<noteq> 0
               \<and> r_greater stub_real_arith (klu_common_condest stub_klu (common (snd ?r3)))
                    (r_div stub_real_arith (RCONST stub_real_arith ONE) ?thr)"
      unfolding thr by (simp add: klu_call_defs stub_klu_defs ONE_def)
    from setup_recomputes_iff_both_estimates_bad
           [where ar = stub_real_arith and SUNRpowerR = stub_power
              and UNIT_ROUNDOFF = stub_UNIT_ROUNDOFF,
            OF sparse nonfirst prod.collapse [symmetric] ok prod.collapse [symmetric]
               prod.collapse [symmetric] prod.collapse [symmetric] refl refl refl] rec
    have calls: "drop (length (klu_calls stub_content)) (klu_calls (snd ?res)) =
            [KLU_REFACTOR, KLU_RCOND, KLU_CONDEST, KLU_FREE_NUMERIC, KLU_FACTOR]"
      and num: "numeric (snd ?res) =
            fst (sun_klu_factor stub_klu (SM_INDEXPTRS_S ?A) (SM_INDEXVALS_S ?A) (SM_DATA_S ?A)
                   (symbolic stub_content)
                   (sun_klu_free_numeric stub_klu (numeric (snd ?r1)) (common (snd ?r3))))"
      and flag: "fst ?res =
            (if numeric (snd ?res) = None then SUNLS_PACKAGE_FAIL_UNREC else SUNLS_SUCCESS)"
      by blast+
    have num': "numeric (snd ?res) = Some (0, [1 / 1048576, 1024])"
      unfolding num by (simp add: stub_klu_defs)
    with flag have "fst ?res = SUNLS_SUCCESS" by simp
    with calls num' show "drop (length (klu_calls stub_content)) (klu_calls (snd ?res)) =
            [KLU_REFACTOR, KLU_RCOND, KLU_CONDEST, KLU_FREE_NUMERIC, KLU_FACTOR]
          \<and> numeric (snd ?res) = Some (0, [1 / 1048576, 1024])
          \<and> fst ?res = SUNLS_SUCCESS"
      by blast
  qed
  have well: "drop (length (klu_calls stub_content))
        (klu_calls (snd (SUNLinSolSetup_KLU stub_real_arith stub_klu stub_power
           stub_UNIT_ROUNDOFF stub_content (stub_matrix [1, 1])))) = [KLU_REFACTOR, KLU_RCOND]
        \<and> fst (SUNLinSolSetup_KLU stub_real_arith stub_klu stub_power stub_UNIT_ROUNDOFF
           stub_content (stub_matrix [1, 1])) = SUNLS_SUCCESS"
   and well_ok: "fst (call_refactor stub_klu stub_content (stub_matrix [1, 1])) \<noteq> 0"
  proof -
    let ?A = "stub_matrix [1, 1]"
    let ?r1 = "call_refactor stub_klu stub_content ?A"
    let ?r2 = "call_rcond stub_klu (snd ?r1)"
    let ?res = "SUNLinSolSetup_KLU stub_real_arith stub_klu stub_power stub_UNIT_ROUNDOFF
                  stub_content ?A"
    have sparse: "SUNMatGetID ?A = SUNMATRIX_SPARSE"
      by (simp add: stub_matrix_def)
    show ok: "fst ?r1 \<noteq> 0"
      by (simp add: call_refactor_def stub_klu_defs)
    have keep: "fst ?r2 \<noteq> 0
                \<and> \<not> r_less stub_real_arith (klu_common_rcond stub_klu (common (snd ?r2))) ?thr"
      unfolding thr by (simp add: klu_call_defs stub_klu_defs)
    from setup_recomputes_iff_both_estimates_bad
           [where ar = stub_real_arith and SUNRpowerR = stub_power
              and UNIT_ROUNDOFF = stub_UNIT_ROUNDOFF,
            OF sparse nonfirst prod.collapse [symmetric] ok prod.collapse [symmetric]
               prod.collapse [symmetric] prod.collapse [symmetric] refl refl refl] keep
    have calls: "drop (length (klu_calls stub_content)) (klu_calls (snd ?res)) =
            [KLU_REFACTOR, KLU_RCOND]"
      and pair: "(fst ?res, snd ?res) =
              (SUNLS_SUCCESS, (snd ?r2)\<lparr>last_flag := SUNLS_SUCCESS\<rparr>)"
      by blast+
    from pair have "fst ?res = SUNLS_SUCCESS"
      by (simp only: prod.inject)
    with calls show "drop (length (klu_calls stub_content)) (klu_calls (snd ?res)) =
            [KLU_REFACTOR, KLU_RCOND] \<and> fst ?res = SUNLS_SUCCESS"
      by (rule conjI)
  qed
  from ill ill_ok ill_sparse well well_ok nonfirst show ?thesis by blast
qed


subsection \<open>Two setup calls in succession\<close>










subsection \<open>Solve\<close>

text \<open>
  C9 (amended). For non-null solver, matrix and vectors, solve first copies \<open>b\<close> into
  \<open>x\<close>. If \<open>x\<close> then hands out no data array, solve records and returns
  \<open>SUNLS_MEM_FAIL\<close> without calling the library's triangular solve. Otherwise it applies
  the solve routine held by the solver to the copy, in place, with the stored symbolic and
  numeric objects; if the routine returns 0, solve records and returns the recoverable
  failure code, otherwise it records and returns success.
\<close>

theorem SUNLinSolSolve_KLU_outcomes:
  "SUNLinSolSolve_KLU (Some S) (Some A) (Some x) (Some b) tol =
     (if \<not> nv_array x
      then (SUNLS_MEM_FAIL, Some (S\<lparr>last_flag := SUNLS_MEM_FAIL\<rparr>),
            Some (x\<lparr>nv_elems := nv_elems b\<rparr>))
      else
        let (flag, xdata, c) =
              klu_solver S (symbolic S) (numeric S) (SM_NP_S A) 1 (nv_elems b) (common S);
            ret = (if flag = 0 then SUNLS_PACKAGE_FAIL_REC else SUNLS_SUCCESS)
        in (ret,
            Some (S\<lparr>common := c, klu_calls := klu_calls S @ [KLU_SOLVE], last_flag := ret\<rparr>),
            Some (x\<lparr>nv_elems := xdata\<rparr>)))"
  by (simp add: SUNLinSolSolve_KLU_def N_VScale_def N_VGetArrayPointer_def ONE_def Let_def
      split: prod.splits)

text \<open>
  C9, witness: a solve with the stored pivot value 1 returns success and \<open>x = b\<close>; with
  no numeric object the solve routine fails and the recoverable failure is returned.
\<close>

theorem SUNLinSolSolve_KLU_outcomes_witness:
  "SUNLinSolSolve_KLU (Some stub_content) (Some (stub_matrix [1, 1]))
     (Some \<lparr>nv_elems = [0, 0], nv_array = True\<rparr>) (Some \<lparr>nv_elems = [2, 4], nv_array = True\<rparr>) 0 =
     (SUNLS_SUCCESS,
      Some (stub_content\<lparr>klu_calls := [KLU_SOLVE]\<rparr>),
      Some \<lparr>nv_elems = [2, 4], nv_array = True\<rparr>)
   \<and> fst (SUNLinSolSolve_KLU (Some (stub_content\<lparr>numeric := None\<rparr>)) (Some (stub_matrix [1, 1]))
     (Some \<lparr>nv_elems = [0, 0], nv_array = True\<rparr>) (Some \<lparr>nv_elems = [2, 4], nv_array = True\<rparr>) 0) =
     SUNLS_PACKAGE_FAIL_REC"
  unfolding SUNLinSolSolve_KLU_outcomes
  by (simp add: stub_content_def stub_solve_def stub_matrix_def)

text \<open>
  C9, counterexample to the claim as stated: all four handles are non-null, \<open>x\<close> is an
  empty vector that hands out no data array. Solve returns \<open>SUNLS_MEM_FAIL\<close>, which is
  neither the recoverable failure code nor success, and the triangular solve is not called.
\<close>

theorem SUNLinSolSolve_KLU_mem_fail_counterexample:
  "SUNLinSolSolve_KLU (Some stub_content) (Some (stub_matrix [1, 1]))
     (Some \<lparr>nv_elems = [], nv_array = False\<rparr>) (Some \<lparr>nv_elems = [], nv_array = True\<rparr>) 0 =
     (SUNLS_MEM_FAIL, Some (stub_content\<lparr>last_flag := SUNLS_MEM_FAIL\<rparr>),
      Some \<lparr>nv_elems = [], nv_array = False\<rparr>)"
  by (simp add: SUNLinSolSolve_KLU_def N_VScale_def N_VGetArrayPointer_def)

subsection \<open>The configuration operations of iterative solvers\<close>

text \<open>
  C10. On a KLU solver, each of \<open>SetATimes\<close>, \<open>SetPreconditioner\<close> and
  \<open>SetScalingVectors\<close> returns the illegal-input code and stores it as the last flag;
  the solver is otherwise unchanged.
\<close>

theorem KLU_iterative_setters_return_ill_input:
  "SUNLinSolSetATimes_KLU S A_data ATSetup ATimes =
     (SUNLS_ILL_INPUT, S\<lparr>last_flag := SUNLS_ILL_INPUT\<rparr>)
   \<and> SUNLinSolSetPreconditioner_KLU S P_data Pset Psol =
       (SUNLS_ILL_INPUT, S\<lparr>last_flag := SUNLS_ILL_INPUT\<rparr>)
   \<and> SUNLinSolSetScalingVectors_KLU S s1 s2 =
       (SUNLS_ILL_INPUT, S\<lparr>last_flag := SUNLS_ILL_INPUT\<rparr>)"
  by (simp add: SUNLinSolSetATimes_KLU_def SUNLinSolSetPreconditioner_KLU_def
      SUNLinSolSetScalingVectors_KLU_def return_flag_def)

section \<open>Properties of the KINBAND solver\<close>

subsection \<open>The constructor\<close>

lemma long_wrap_id:
  assumes "LONG_MIN \<le> x" and "x \<le> LONG_MAX"
  shows "long_wrap x = x"
proof -
  have "0 \<le> x + 2 ^ 63" and "x + 2 ^ 63 < 2 ^ 64"
    using assms by (simp_all add: LONG_MIN_def LONG_MAX_def)
  then have "(x + 2 ^ 63) mod 2 ^ 64 = x + 2 ^ 63"
    by (rule mod_pos_pos_trivial)
  then show ?thesis by (simp add: long_wrap_def)
qed

text \<open>
  C6 (amended). Whenever \<open>mlower < 0\<close>, \<open>mupper < 0\<close>, \<open>mlower \<ge> N\<close> or
  \<open>mupper \<ge> N\<close>, \<open>KINBand\<close> returns the illegal-input code, except that it returns
  the memory-null code when the solver memory is NULL, and the memory-failure code when
  the vectors give array access and no memory for the \<open>KINBandMemRec\<close> is obtained.
  Whenever it returns success, the half-bandwidths satisfy \<open>0 \<le> mlower, mupper < N\<close> and the attached record
  stores them, the dimension, and as extended storage bandwidth the smaller of \<open>N - 1\<close>
  and the \<open>long int\<close> sum of \<open>mupper\<close> and \<open>mlower\<close>; this is
  \<open>min (N - 1) (mupper + mlower)\<close> when \<open>mupper + mlower\<close> does not exceed \<open>LONG_MAX\<close>.
  The three arguments are \<open>long int\<close>s.
\<close>

theorem KINBand_checks_half_bandwidths:
  assumes "LONG_MIN \<le> N \<and> N \<le> LONG_MAX" and "LONG_MIN \<le> mupper \<and> mupper \<le> LONG_MAX"
    and "LONG_MIN \<le> mlower \<and> mlower \<le> LONG_MAX"
    and "KINBand call_lfree malloc_KINBandMem BandAllocMat BandAllocPiv kinmem N mupper mlower
           = (flag, kinmem')"
  shows "(mlower < 0 \<or> mupper < 0 \<or> mlower \<ge> N \<or> mupper \<ge> N \<longrightarrow>
            flag = (case kinmem of
                      None \<Rightarrow> KINBAND_MEM_NULL
                    | Some kin_mem \<Rightarrow>
                        if nv_array (kin_vtemp1 kin_mem) \<and> malloc_KINBandMem = None
                        then KINBAND_MEM_FAIL else KINBAND_ILL_INPUT))
         \<and> (flag = KINBAND_SUCCESS \<longrightarrow>
              0 \<le> mlower \<and> mlower < N \<and> 0 \<le> mupper \<and> mupper < N
              \<and> (\<exists>km kb. kinmem' = Some km \<and> kin_lmem km = Some kb
                    \<and> b_n kb = N \<and> b_ml kb = mlower \<and> b_mu kb = mupper
                    \<and> b_storage_mu kb = min (N - 1) (long_wrap (mupper + mlower))
                    \<and> (mupper + mlower \<le> LONG_MAX \<longrightarrow>
                         b_storage_mu kb = min (N - 1) (mupper + mlower))))"
proof -
  have n1: "long_wrap (N - 1) = N - 1" if "0 \<le> mlower" and "mlower < N"
    using that assms(1) by (intro long_wrap_id) (simp_all add: LONG_MIN_def)
  have sum: "long_wrap (mupper + mlower) = mupper + mlower"
    if "0 \<le> mlower" and "0 \<le> mupper" and "mupper + mlower \<le> LONG_MAX"
    using that by (intro long_wrap_id) (simp_all add: LONG_MIN_def)
  show ?thesis
    using assms(4) n1 sum
    by (auto simp: KINBand_def Let_def split: if_splits option.splits)
qed

text \<open>
  C6, witness: dimension 5 with \<open>mlower = -1\<close> is refused; dimension 5 with both
  half-bandwidths 3 succeeds and stores the storage bandwidth \<open>min 4 6 = 4\<close>.
\<close>

theorem KINBand_checks_half_bandwidths_witness:
  "fst (KINBand (\<lambda>f km. km) (Some stub_kinband_mem) stub_BandAllocMat stub_BandAllocPiv
          (Some (stub_kin_mem stub_sqrt_relfunc (map Finite [1, 1, 1, 1, 1]))) 5 1 (- 1)) =
     KINBAND_ILL_INPUT
   \<and> fst (KINBand (\<lambda>f km. km) (Some stub_kinband_mem) stub_BandAllocMat stub_BandAllocPiv
          (Some (stub_kin_mem stub_sqrt_relfunc (map Finite [1, 1, 1, 1, 1]))) 5 3 3) =
       KINBAND_SUCCESS
   \<and> (\<exists>km kb. snd (KINBand (\<lambda>f km. km) (Some stub_kinband_mem) stub_BandAllocMat
                   stub_BandAllocPiv
                   (Some (stub_kin_mem stub_sqrt_relfunc (map Finite [1, 1, 1, 1, 1]))) 5 3 3) =
                 Some km
          \<and> kin_lmem km = Some kb \<and> b_storage_mu kb = 4)"
proof -
  let ?km = "stub_kin_mem stub_sqrt_relfunc (map Finite [1, 1, 1, 1, 1])"
  let ?bad = "KINBand (\<lambda>f km. km) (Some stub_kinband_mem) stub_BandAllocMat stub_BandAllocPiv
          (Some ?km) 5 1 (- 1)"
  let ?good = "KINBand (\<lambda>f km. km) (Some stub_kinband_mem) stub_BandAllocMat stub_BandAllocPiv
          (Some ?km) 5 3 3"
  have r5: "LONG_MIN \<le> (5::int) \<and> (5::int) \<le> LONG_MAX"
    and r3: "LONG_MIN \<le> (3::int) \<and> (3::int) \<le> LONG_MAX"
    and r1: "LONG_MIN \<le> (1::int) \<and> (1::int) \<le> LONG_MAX"
    and rm: "LONG_MIN \<le> (- 1::int) \<and> (- 1::int) \<le> LONG_MAX"
    by (simp_all add: LONG_MIN_def LONG_MAX_def)
  have bad: "fst ?bad = KINBAND_ILL_INPUT"
    using KINBand_checks_half_bandwidths
            [where call_lfree = "\<lambda>f km. km" and BandAllocMat = stub_BandAllocMat
               and BandAllocPiv = stub_BandAllocPiv and N = 5 and mupper = 1 and mlower = "- 1"
               and kinmem = "Some ?km" and malloc_KINBandMem = "Some stub_kinband_mem",
             OF r5 r1 rm prod.collapse [symmetric]]
    by simp
  have ok: "fst ?good = KINBAND_SUCCESS"
    by (simp add: KINBand_def stub_kin_mem_def stub_BandAllocMat_def stub_BandAllocPiv_def
        Let_def)
  have small: "(3::int) + 3 \<le> LONG_MAX" by (simp add: LONG_MAX_def)
  have "\<exists>km kb. snd ?good = Some km \<and> kin_lmem km = Some kb \<and> b_storage_mu kb = 4"
    using KINBand_checks_half_bandwidths
            [where call_lfree = "\<lambda>f km. km" and BandAllocMat = stub_BandAllocMat
               and BandAllocPiv = stub_BandAllocPiv and N = 5 and mupper = 3 and mlower = 3
               and kinmem = "Some ?km" and malloc_KINBandMem = "Some stub_kinband_mem",
             OF r5 r3 r3 prod.collapse [symmetric]] ok small
    by auto
  with bad ok show ?thesis by blast
qed

text \<open>
  C6, counterexample to the claim as stated. With a null solver memory and \<open>mlower = -1\<close>
  the constructor returns the memory-null code, and with a solver memory but no memory for
  the record it returns the memory-failure code: in neither case the illegal-input code.
  With \<open>N = LONG_MAX\<close> and \<open>mupper = mlower = 2\<^sup>6\<^sup>2\<close>, sizes that pass the test, and
  allocators that succeed, it returns success and stores the storage bandwidth \<open>-2\<^sup>6\<^sup>3\<close>,
  which is not \<open>min (N - 1) (mupper + mlower) = LONG_MAX - 1\<close>.
\<close>

theorem KINBand_guards_and_overflow_counterexample:
  "fst (KINBand (\<lambda>f km. km) (Some stub_kinband_mem) stub_BandAllocMat stub_BandAllocPiv
          None 5 1 (- 1)) = KINBAND_MEM_NULL
   \<and> fst (KINBand (\<lambda>f km. km) None stub_BandAllocMat stub_BandAllocPiv
          (Some (stub_kin_mem stub_sqrt_relfunc (map Finite [1, 1, 1, 1, 1]))) 5 1 (- 1)) =
       KINBAND_MEM_FAIL
   \<and> fst (KINBand (\<lambda>f km. km) (Some stub_kinband_mem) (\<lambda>N mu ml smu. Some BandZero)
          (\<lambda>N. Some [])
          (Some (stub_kin_mem stub_sqrt_relfunc (map Finite [1, 1, 1, 1, 1])))
          LONG_MAX (2 ^ 62) (2 ^ 62)) = KINBAND_SUCCESS
   \<and> map_option (\<lambda>km. map_option b_storage_mu (kin_lmem km))
        (snd (KINBand (\<lambda>f km. km) (Some stub_kinband_mem) (\<lambda>N mu ml smu. Some BandZero)
          (\<lambda>N. Some [])
          (Some (stub_kin_mem stub_sqrt_relfunc (map Finite [1, 1, 1, 1, 1])))
          LONG_MAX (2 ^ 62) (2 ^ 62))) = Some (Some (- (2 ^ 63)))
   \<and> min (LONG_MAX - 1) (2 ^ 62 + 2 ^ 62) = LONG_MAX - 1
   \<and> - (2 ^ 63) \<noteq> LONG_MAX - 1"
  by (simp add: KINBand_def stub_kin_mem_def stub_BandAllocMat_def stub_BandAllocPiv_def
      Let_def LONG_MAX_def long_wrap_def)


subsection \<open>The loops of the difference-quotient Jacobian\<close>

text \<open>Two facts about the columns \<open>j, j + w, j + 2w, \<dots>\<close> visited by a loop of stride \<open>w\<close>.\<close>

lemma stride_step:
  fixes j k w :: int
  assumes "0 < w" and "k \<noteq> j"
  shows "(j + w \<le> k \<and> (k - (j + w)) mod w = 0) \<longleftrightarrow> (j \<le> k \<and> (k - j) mod w = 0)"
proof -
  have "k - (j + w) = k - j - w" by simp
  then have eq: "(k - (j + w)) mod w = (k - j) mod w"
    by (simp only: minus_mod_self2)
  have "j + w \<le> k" if "j \<le> k" and "(k - j) mod w = 0"
  proof -
    from that assms have "0 < k - j" and "w dvd k - j" by auto
    then have "w \<le> k - j" by (rule_tac zdvd_imp_le) auto
    then show ?thesis by simp
  qed
  moreover have "j \<le> k" if "j + w \<le> k"
    using that assms by simp
  ultimately show ?thesis unfolding eq by meson
qed

lemma stride_mod:
  fixes g k w :: int
  assumes "0 \<le> g" and "g < w" and "0 \<le> k"
  shows "(g \<le> k \<and> (k - g) mod w = 0) \<longleftrightarrow> k mod w = g"
proof
  assume "g \<le> k \<and> (k - g) mod w = 0"
  then have "w dvd k - g" by auto
  then have "k mod w = g mod w" using mod_eq_dvd_iff [of k w g] by blast
  with assms show "k mod w = g" by simp
next
  assume h: "k mod w = g"
  have "k mod w \<le> k" using assms by (simp add: zmod_le_nonneg_dividend)
  moreover have "(k - k mod w) mod w = 0" by (simp add: minus_mod_eq_mult_div)
  ultimately show "g \<le> k \<and> (k - g) mod w = 0" using h by simp
qed

lemma dq_column_apply:
  "dq_column ar inc_inv ft fu j i2 i J (i', j') =
     (if j' = j \<and> i \<le> i' \<and> i' \<le> i2
      then r_mul ar inc_inv (r_sub ar (ft ! nat i') (fu ! nat i')) else J (i', j'))"
proof (induction ar inc_inv ft fu j i2 i J rule: dq_column.induct)
  case (1 ar inc_inv ft fu j i2 i J)
  show ?case
  proof (cases "i \<le> i2")
    case True
    let ?J = "J((i, j) := r_mul ar inc_inv (r_sub ar (ft ! nat i) (fu ! nat i)))"
    have step: "dq_column ar inc_inv ft fu j i2 i J = dq_column ar inc_inv ft fu j i2 (i + 1) ?J"
      using True by (subst dq_column.simps) simp
    have ih: "dq_column ar inc_inv ft fu j i2 (i + 1) ?J (i', j') =
                (if j' = j \<and> i + 1 \<le> i' \<and> i' \<le> i2
                 then r_mul ar inc_inv (r_sub ar (ft ! nat i') (fu ! nat i')) else ?J (i', j'))"
      by (rule "1.IH" [OF True])
    show ?thesis
      unfolding step ih using True by auto
  next
    case False
    then show ?thesis by (subst dq_column.simps) auto
  qed
qed

lemma dq_increment_length:
  "length (dq_increment ar srf u us n w j ut) = length ut"
proof (induction ar srf u us n w j ut rule: dq_increment.induct)
  case (1 ar srf u us n w j ut)
  show ?case
  proof (cases "j < n \<and> 0 < w")
    case True
    then show ?thesis
      using "1.IH" [OF True refl] by (subst dq_increment.simps) (simp add: Let_def)
  next
    case False
    then show ?thesis by (subst dq_increment.simps) auto
  qed
qed

lemma dq_increment_nth:
  assumes "0 \<le> j" and "k < length ut"
  shows "dq_increment ar srf u us n w j ut ! k =
           (if j \<le> int k \<and> int k < n \<and> (int k - j) mod w = 0 \<and> 0 < w
            then r_add ar (ut ! k) (dq_inc ar srf u us (int k)) else ut ! k)"
  using assms
proof (induction ar srf u us n w j ut rule: dq_increment.induct)
  case (1 ar srf u us n w j ut)
  show ?case
  proof (cases "j < n \<and> 0 < w")
    case True
    let ?ut = "ut[nat j := r_add ar (ut ! nat j) (dq_inc ar srf u us j)]"
    have step: "dq_increment ar srf u us n w j ut = dq_increment ar srf u us n w (j + w) ?ut"
      using True by (subst dq_increment.simps) (simp add: Let_def)
    have ih: "dq_increment ar srf u us n w (j + w) ?ut ! k =
                (if j + w \<le> int k \<and> int k < n \<and> (int k - (j + w)) mod w = 0 \<and> 0 < w
                 then r_add ar (?ut ! k) (dq_inc ar srf u us (int k)) else ?ut ! k)"
      using "1.IH" [OF True refl] True "1.prems" by simp
    show ?thesis
    proof (cases "int k = j")
      case eq: True
      then have kj: "nat j = k" by simp
      have "\<not> j + w \<le> int k" using eq True by simp
      then have "dq_increment ar srf u us n w j ut ! k = ?ut ! k"
        unfolding step ih by simp
      also have "\<dots> = r_add ar (ut ! k) (dq_inc ar srf u us (int k))"
        using kj eq "1.prems" by simp
      finally show ?thesis using eq True by simp
    next
      case neq: False
      then have kj: "nat j \<noteq> k" using "1.prems" by auto
      have c: "(j + w \<le> int k \<and> (int k - (j + w)) mod w = 0)
                 \<longleftrightarrow> (j \<le> int k \<and> (int k - j) mod w = 0)"
        using stride_step [of w "int k" j] True neq by simp
      have u: "?ut ! k = ut ! k" using kj by simp
      show ?thesis
      proof (cases "j \<le> int k \<and> (int k - j) mod w = 0")
        case True
        with c have "j + w \<le> int k \<and> (int k - (j + w)) mod w = 0" by simp
        with True show ?thesis unfolding step ih u by simp
      next
        case False
        with c have "\<not> (j + w \<le> int k \<and> (int k - (j + w)) mod w = 0)" by simp
        with False show ?thesis unfolding step ih u by auto
      qed
    qed
  next
    case False
    then show ?thesis by (subst dq_increment.simps) auto
  qed
qed


lemma dq_quotients_step:
  assumes "j < n \<and> 0 < w"
  shows "dq_quotients ar srf u us fu ft n mu ml w j (ut, J) =
           dq_quotients ar srf u us fu ft n mu ml w (j + w)
             (ut[nat j := u ! nat j],
              dq_column ar (r_div ar (RCONST ar ONE) (dq_inc ar srf u us j)) ft fu j (min (j + ml) (n - 1))
                (max 0 (j - mu)) J)"
  using assms by (subst dq_quotients.simps) (simp add: Let_def)

lemma dq_quotients_stop:
  assumes "\<not> (j < n \<and> 0 < w)"
  shows "dq_quotients ar srf u us fu ft n mu ml w j (ut, J) = (ut, J)"
  by (subst dq_quotients.simps) (simp only: assms if_False)

lemma dq_quotients_length:
  "length (fst (dq_quotients ar srf u us fu ft n mu ml w j (ut, J))) = length ut"
proof (induction ar srf u us fu ft n mu ml w j "(ut, J)" arbitrary: ut J rule: dq_quotients.induct)
  case (1 ar srf u us fu ft n mu ml w j ut J)
  show ?case
  proof (cases "j < n \<and> 0 < w")
    case True
    show ?thesis
      unfolding dq_quotients_step [OF True]
      using "1.hyps" [OF True refl refl refl refl refl refl] by simp
  next
    case False
    then show ?thesis by (simp add: dq_quotients_stop)
  qed
qed

lemma dq_quotients_nth:
  assumes "0 \<le> j" and "k < length ut"
  shows "fst (dq_quotients ar srf u us fu ft n mu ml w j (ut, J)) ! k =
           (if j \<le> int k \<and> int k < n \<and> (int k - j) mod w = 0 \<and> 0 < w
            then u ! k else ut ! k)"
  using assms
proof (induction ar srf u us fu ft n mu ml w j "(ut, J)" arbitrary: ut J rule: dq_quotients.induct)
  case (1 ar srf u us fu ft n mu ml w j ut J)
  show ?case
  proof (cases "j < n \<and> 0 < w")
    case True
    let ?ut = "ut[nat j := u ! nat j]"
    let ?J = "dq_column ar (r_div ar (RCONST ar ONE) (dq_inc ar srf u us j)) ft fu j (min (j + ml) (n - 1))
                (max 0 (j - mu)) J"
    have ih: "fst (dq_quotients ar srf u us fu ft n mu ml w (j + w) (?ut, ?J)) ! k =
                (if j + w \<le> int k \<and> int k < n \<and> (int k - (j + w)) mod w = 0 \<and> 0 < w
                 then u ! k else ?ut ! k)"
      using "1.hyps" [OF True refl refl refl refl refl refl] True "1.prems" by simp
    show ?thesis
    proof (cases "int k = j")
      case eq: True
      then have kj: "nat j = k" by simp
      have "\<not> j + w \<le> int k" using eq True by simp
      then have "fst (dq_quotients ar srf u us fu ft n mu ml w j (ut, J)) ! k = ?ut ! k"
        unfolding dq_quotients_step [OF True] ih by simp
      also have "\<dots> = u ! k"
        using kj "1.prems" by simp
      finally show ?thesis using eq True by simp
    next
      case neq: False
      then have kj: "nat j \<noteq> k" using "1.prems" by auto
      have c: "(j + w \<le> int k \<and> (int k - (j + w)) mod w = 0)
                 \<longleftrightarrow> (j \<le> int k \<and> (int k - j) mod w = 0)"
        using stride_step [of w "int k" j] True neq by simp
      have u: "?ut ! k = ut ! k" using kj by simp
      show ?thesis
      proof (cases "j \<le> int k \<and> (int k - j) mod w = 0")
        case True
        with c have "j + w \<le> int k \<and> (int k - (j + w)) mod w = 0" by simp
        with True show ?thesis unfolding dq_quotients_step [OF \<open>j < n \<and> 0 < w\<close>] ih u by simp
      next
        case False
        with c have "\<not> (j + w \<le> int k \<and> (int k - (j + w)) mod w = 0)" by simp
        with False show ?thesis unfolding dq_quotients_step [OF \<open>j < n \<and> 0 < w\<close>] ih u by auto
      qed
    qed
  next
    case False
    then show ?thesis by (auto simp add: dq_quotients_stop)
  qed
qed

lemma dq_quotients_apply:
  assumes "0 \<le> j"
  shows "snd (dq_quotients ar srf u us fu ft n mu ml w j (ut, J)) (i', j') =
           (if j \<le> j' \<and> j' < n \<and> (j' - j) mod w = 0 \<and> 0 < w
               \<and> max 0 (j' - mu) \<le> i' \<and> i' \<le> min (j' + ml) (n - 1)
            then r_mul ar (r_div ar (RCONST ar ONE) (dq_inc ar srf u us j')) (r_sub ar (ft ! nat i') (fu ! nat i'))
            else J (i', j'))"
  using assms
proof (induction ar srf u us fu ft n mu ml w j "(ut, J)" arbitrary: ut J rule: dq_quotients.induct)
  case (1 ar srf u us fu ft n mu ml w j ut J)
  show ?case
  proof (cases "j < n \<and> 0 < w")
    case True
    let ?ut = "ut[nat j := u ! nat j]"
    let ?J = "dq_column ar (r_div ar (RCONST ar ONE) (dq_inc ar srf u us j)) ft fu j (min (j + ml) (n - 1))
                (max 0 (j - mu)) J"
    let ?Q = "r_mul ar (r_div ar (RCONST ar ONE) (dq_inc ar srf u us j')) (r_sub ar (ft ! nat i') (fu ! nat i'))"
    have ih: "snd (dq_quotients ar srf u us fu ft n mu ml w (j + w) (?ut, ?J)) (i', j') =
                (if j + w \<le> j' \<and> j' < n \<and> (j' - (j + w)) mod w = 0 \<and> 0 < w
                    \<and> max 0 (j' - mu) \<le> i' \<and> i' \<le> min (j' + ml) (n - 1)
                 then ?Q else ?J (i', j'))"
      using "1.hyps" [OF True refl refl refl refl refl refl] True "1.prems" by simp
    have col: "?J (i', j') =
                 (if j' = j \<and> max 0 (j - mu) \<le> i' \<and> i' \<le> min (j + ml) (n - 1)
                  then r_mul ar (r_div ar (RCONST ar ONE) (dq_inc ar srf u us j)) (r_sub ar (ft ! nat i') (fu ! nat i'))
                  else J (i', j'))"
      by (rule dq_column_apply)
    show ?thesis
    proof (cases "j' = j")
      case eq: True
      have "\<not> j + w \<le> j'" using eq True by simp
      then have "snd (dq_quotients ar srf u us fu ft n mu ml w j (ut, J)) (i', j') = ?J (i', j')"
        unfolding dq_quotients_step [OF True] ih by simp
      then show ?thesis unfolding col using eq True by simp
    next
      case neq: False
      have c: "(j + w \<le> j' \<and> (j' - (j + w)) mod w = 0) \<longleftrightarrow> (j \<le> j' \<and> (j' - j) mod w = 0)"
        using stride_step [of w j' j] True neq by simp
      have u: "?J (i', j') = J (i', j')" unfolding col using neq by simp
      show ?thesis
      proof (cases "j \<le> j' \<and> (j' - j) mod w = 0")
        case True
        with c have "j + w \<le> j' \<and> (j' - (j + w)) mod w = 0" by simp
        with True show ?thesis unfolding dq_quotients_step [OF \<open>j < n \<and> 0 < w\<close>] ih u by simp
      next
        case False
        with c have "\<not> (j + w \<le> j' \<and> (j' - (j + w)) mod w = 0)" by simp
        with False show ?thesis unfolding dq_quotients_step [OF \<open>j < n \<and> 0 < w\<close>] ih u by auto
      qed
    qed
  next
    case False
    then show ?thesis by (auto simp add: dq_quotients_stop)
  qed
qed


lemma dq_perturbed_length: "length (dq_perturbed ar srf u us w g) = length u"
  by (simp add: dq_perturbed_def)

lemma dq_perturbed_nth:
  "k < length u \<Longrightarrow> dq_perturbed ar srf u us w g ! k =
     (if int k mod w = g then r_add ar (u ! k) (dq_inc ar srf u us (int k)) else u ! k)"
  by (simp add: dq_perturbed_def)

lemma dq_increment_group:
  assumes "length u = nat n" and "0 \<le> g" and "g < w"
  shows "dq_increment ar srf u us n w g u = dq_perturbed ar srf u us w g"
proof (rule nth_equalityI)
  show "length (dq_increment ar srf u us n w g u) = length (dq_perturbed ar srf u us w g)"
    by (simp add: dq_increment_length dq_perturbed_length)
next
  fix k assume "k < length (dq_increment ar srf u us n w g u)"
  then have k: "k < length u" by (simp add: dq_increment_length)
  with assms have kn: "int k < n" by simp
  have "(g \<le> int k \<and> (int k - g) mod w = 0) \<longleftrightarrow> int k mod w = g"
    using assms by (intro stride_mod) simp_all
  with kn assms show "dq_increment ar srf u us n w g u ! k = dq_perturbed ar srf u us w g ! k"
    unfolding dq_increment_nth [OF \<open>0 \<le> g\<close> k] dq_perturbed_nth [OF k] by auto
qed

lemma dq_quotients_restore:
  assumes "length u = nat n" and "0 \<le> g" and "g < w"
  shows "fst (dq_quotients ar srf u us fu ft n mu ml w g (dq_perturbed ar srf u us w g, J)) = u"
proof (rule nth_equalityI)
  show "length (fst (dq_quotients ar srf u us fu ft n mu ml w g (dq_perturbed ar srf u us w g, J)))
          = length u"
    by (simp add: dq_quotients_length dq_perturbed_length)
next
  fix k
  assume "k < length (fst (dq_quotients ar srf u us fu ft n mu ml w g
                            (dq_perturbed ar srf u us w g, J)))"
  then have k: "k < length u" by (simp add: dq_quotients_length dq_perturbed_length)
  then have k': "k < length (dq_perturbed ar srf u us w g)" by (simp add: dq_perturbed_length)
  from k assms have kn: "int k < n" by simp
  have "(g \<le> int k \<and> (int k - g) mod w = 0) \<longleftrightarrow> int k mod w = g"
    using assms by (intro stride_mod) simp_all
  with kn assms
  show "fst (dq_quotients ar srf u us fu ft n mu ml w g (dq_perturbed ar srf u us w g, J)) ! k = u ! k"
    unfolding dq_quotients_nth [OF \<open>0 \<le> g\<close> k'] dq_perturbed_nth [OF k] by auto
qed


lemma dq_groups_step:
  assumes "grp \<le> ngroups"
  shows "dq_groups ar F srf u us fu n mu ml w ngroups grp (ut, ft, J, args) =
           dq_groups ar F srf u us fu n mu ml w ngroups (grp + 1)
             (fst (dq_quotients ar srf u us fu (F (dq_increment ar srf u us n w (grp - 1) ut))
                     n mu ml w (grp - 1) (dq_increment ar srf u us n w (grp - 1) ut, J)),
              F (dq_increment ar srf u us n w (grp - 1) ut),
              snd (dq_quotients ar srf u us fu (F (dq_increment ar srf u us n w (grp - 1) ut))
                     n mu ml w (grp - 1) (dq_increment ar srf u us n w (grp - 1) ut, J)),
              args @ [dq_increment ar srf u us n w (grp - 1) ut])"
  using assms by (subst dq_groups.simps) (simp add: Let_def split: prod.splits)

lemma dq_groups_stop:
  assumes "\<not> grp \<le> ngroups"
  shows "dq_groups ar F srf u us fu n mu ml w ngroups grp (ut, ft, J, args) = (ut, ft, J, args)"
  by (subst dq_groups.simps) (simp only: assms if_False)

lemma dq_groups_result:
  assumes "length u = nat n" and "1 \<le> grp" and "ngroups \<le> w"
  shows "\<exists>ft' J'.
           dq_groups ar F srf u us fu n mu ml w ngroups grp (u, ft, J, args) =
             (u, ft', J', args @ map (dq_perturbed ar srf u us w) [grp - 1 .. ngroups - 1])
           \<and> (\<forall>i j. J' (i, j) =
                 (if grp - 1 \<le> j mod w \<and> j mod w < ngroups \<and> 0 \<le> j \<and> j < n
                     \<and> max 0 (j - mu) \<le> i \<and> i \<le> min (j + ml) (n - 1)
                  then r_mul ar (r_div ar (RCONST ar ONE) (dq_inc ar srf u us j))
                         (r_sub ar (F (dq_perturbed ar srf u us w (j mod w)) ! nat i) (fu ! nat i))
                  else J (i, j)))"
  using assms
proof (induction "nat (ngroups + 1 - grp)" arbitrary: grp ft J args)
  case 0
  then have stop: "\<not> grp \<le> ngroups" by simp
  then have e: "[grp - 1 .. ngroups - 1] = []" by simp
  have "\<not> (grp - 1 \<le> j mod w \<and> j mod w < ngroups)" for j
    using stop by linarith
  then show ?case unfolding dq_groups_stop [OF stop] e by auto
next
  case (Suc m)
  then have go: "grp \<le> ngroups" by simp
  let ?g = "grp - 1"
  let ?p = "dq_perturbed ar srf u us w ?g"
  let ?q = "dq_quotients ar srf u us fu (F ?p) n mu ml w ?g (?p, J)"
  have g: "0 \<le> ?g" "?g < w" using Suc.prems go by simp_all
  have inc: "dq_increment ar srf u us n w ?g u = ?p"
    using Suc.prems(1) g by (rule dq_increment_group)
  have rest: "fst ?q = u"
    using Suc.prems(1) g by (rule dq_quotients_restore)
  have step: "dq_groups ar F srf u us fu n mu ml w ngroups grp (u, ft, J, args) =
                dq_groups ar F srf u us fu n mu ml w ngroups (grp + 1) (u, F ?p, snd ?q, args @ [?p])"
    unfolding dq_groups_step [OF go] inc rest ..
  have m: "m = nat (ngroups + 1 - (grp + 1))" using Suc.hyps(2) by simp
  from Suc.hyps(1) [OF m Suc.prems(1) _ Suc.prems(3), of "F ?p" "snd ?q" "args @ [?p]"] Suc.prems(2)
  obtain ft' J' where
    res: "dq_groups ar F srf u us fu n mu ml w ngroups (grp + 1) (u, F ?p, snd ?q, args @ [?p]) =
            (u, ft', J', (args @ [?p]) @ map (dq_perturbed ar srf u us w) [grp + 1 - 1 .. ngroups - 1])"
    and J': "\<And>i j. J' (i, j) =
               (if grp + 1 - 1 \<le> j mod w \<and> j mod w < ngroups \<and> 0 \<le> j \<and> j < n
                   \<and> max 0 (j - mu) \<le> i \<and> i \<le> min (j + ml) (n - 1)
                then r_mul ar (r_div ar (RCONST ar ONE) (dq_inc ar srf u us j))
                       (r_sub ar (F (dq_perturbed ar srf u us w (j mod w)) ! nat i) (fu ! nat i))
                else snd ?q (i, j))"
    by auto
  have upto: "[?g .. ngroups - 1] = ?g # [grp + 1 - 1 .. ngroups - 1]"
    using go by (subst upto_rec1) simp_all
  have args: "(args @ [?p]) @ map (dq_perturbed ar srf u us w) [grp + 1 - 1 .. ngroups - 1] =
                args @ map (dq_perturbed ar srf u us w) [?g .. ngroups - 1]"
    unfolding upto by simp
  have "J' (i, j) =
          (if ?g \<le> j mod w \<and> j mod w < ngroups \<and> 0 \<le> j \<and> j < n
              \<and> max 0 (j - mu) \<le> i \<and> i \<le> min (j + ml) (n - 1)
           then r_mul ar (r_div ar (RCONST ar ONE) (dq_inc ar srf u us j))
                  (r_sub ar (F (dq_perturbed ar srf u us w (j mod w)) ! nat i) (fu ! nat i))
           else J (i, j))" for i j
  proof (cases "0 \<le> j")
    case True
    have c: "(?g \<le> j \<and> (j - ?g) mod w = 0) \<longleftrightarrow> j mod w = ?g"
      using g True by (intro stride_mod)
    show ?thesis
    proof (cases "j mod w = ?g")
      case True
      with c have "?g \<le> j \<and> (j - ?g) mod w = 0" by simp
      with True g go show ?thesis
        unfolding J' dq_quotients_apply [OF g(1)] by auto
    next
      case False
      with c have "\<not> (?g \<le> j \<and> (j - ?g) mod w = 0)" by simp
      with False show ?thesis
        unfolding J' dq_quotients_apply [OF g(1)] by auto
    qed
  next
    case False
    with g show ?thesis
      unfolding J' dq_quotients_apply [OF g(1)] by auto
  qed
  with res show ?case unfolding step args by blast
qed


subsection \<open>The result of \<open>KINBandDQJac\<close>\<close>

text \<open>
  What one call returns: the work vector and \<open>u\<close> are \<open>u\<close>, the counter \<open>nfeB\<close> has
  grown by \<open>ngroups\<close>, \<open>func\<close> has been called once per group at the vector perturbed in
  the columns of that group, and the columns of \<open>J\<close> that belong to a group hold, inside
  their band, the product of \<open>ONE/inc\<close> and the difference of the two function values.
\<close>

lemma KINBandDQJac_result:
  assumes "length u = nat n" and "kin_lmem km = Some kb"
  shows "\<exists>ft' J'.
           KINBandDQJac ar n mu ml J u fu km tmp1 tmp2 =
             Some (0, J', u, ft', u,
                   km\<lparr>kin_lmem := Some (kb\<lparr>b_nfeB := b_nfeB kb + min (ml + mu + 1) n\<rparr>),
                      kin_func_args := kin_func_args km @
                        map (dq_perturbed ar (kin_sqrt_relfunc km) u (kin_uscale km) (ml + mu + 1))
                          [0 .. min (ml + mu + 1) n - 1]\<rparr>)
           \<and> (\<forall>i j. J' (i, j) =
                 (if 0 \<le> j mod (ml + mu + 1) \<and> j mod (ml + mu + 1) < min (ml + mu + 1) n
                     \<and> 0 \<le> j \<and> j < n
                     \<and> max 0 (j - mu) \<le> i \<and> i \<le> min (j + ml) (n - 1)
                  then r_mul ar
                         (r_div ar (RCONST ar ONE)
                            (dq_inc ar (kin_sqrt_relfunc km) u (kin_uscale km) j))
                         (r_sub ar
                            (kin_func km (dq_perturbed ar (kin_sqrt_relfunc km) u (kin_uscale km)
                               (ml + mu + 1) (j mod (ml + mu + 1))) ! nat i)
                            (fu ! nat i))
                  else J (i, j)))"
proof -
  let ?w = "ml + mu + 1"
  have "min ?w n \<le> ?w" by simp
  from dq_groups_result [OF assms(1) order_refl this,
         of ar "kin_func km" "kin_sqrt_relfunc km" "kin_uscale km" fu mu ml tmp1 J
            "kin_func_args km"]
  obtain ft' J' where
    run: "dq_groups ar (kin_func km) (kin_sqrt_relfunc km) u (kin_uscale km) fu n mu ml ?w
            (min ?w n) 1 (u, tmp1, J, kin_func_args km) =
          (u, ft', J', kin_func_args km @
             map (dq_perturbed ar (kin_sqrt_relfunc km) u (kin_uscale km) ?w)
               [1 - 1 .. min ?w n - 1])"
    and J': "\<And>i j. J' (i, j) =
               (if 1 - 1 \<le> j mod ?w \<and> j mod ?w < min ?w n \<and> 0 \<le> j \<and> j < n
                   \<and> max 0 (j - mu) \<le> i \<and> i \<le> min (j + ml) (n - 1)
                then r_mul ar
                       (r_div ar (RCONST ar ONE)
                          (dq_inc ar (kin_sqrt_relfunc km) u (kin_uscale km) j))
                       (r_sub ar
                          (kin_func km (dq_perturbed ar (kin_sqrt_relfunc km) u (kin_uscale km) ?w
                             (j mod ?w)) ! nat i)
                          (fu ! nat i))
                else J (i, j))"
    by blast
  have copy: "N_VScale_data ar (RCONST ar ONE) u = u" by (simp add: N_VScale_data_def)
  have "KINBandDQJac ar n mu ml J u fu km tmp1 tmp2 =
          Some (0, J', u, ft', u,
                km\<lparr>kin_lmem := Some (kb\<lparr>b_nfeB := b_nfeB kb + min ?w n\<rparr>),
                   kin_func_args := kin_func_args km @
                     map (dq_perturbed ar (kin_sqrt_relfunc km) u (kin_uscale km) ?w)
                       [0 .. min ?w n - 1]\<rparr>)"
    unfolding KINBandDQJac_def Let_def copy
    using run assms(2) by (simp add: add.commute)
  moreover have "\<forall>i j. J' (i, j) =
                 (if 0 \<le> j mod ?w \<and> j mod ?w < min ?w n \<and> 0 \<le> j \<and> j < n
                     \<and> max 0 (j - mu) \<le> i \<and> i \<le> min (j + ml) (n - 1)
                  then r_mul ar
                         (r_div ar (RCONST ar ONE)
                            (dq_inc ar (kin_sqrt_relfunc km) u (kin_uscale km) j))
                         (r_sub ar
                            (kin_func km (dq_perturbed ar (kin_sqrt_relfunc km) u (kin_uscale km)
                               ?w (j mod ?w)) ! nat i)
                            (fu ! nat i))
                  else J (i, j))"
    using J' by simp
  ultimately show ?thesis by blast
qed

lemma column_in_some_group:
  fixes j n w :: int
  assumes "0 < w" and "0 \<le> j" and "j < n"
  shows "0 \<le> j mod w \<and> j mod w < min w n"
proof -
  have "j mod w \<le> j" using assms by (simp add: zmod_le_nonneg_dividend)
  with assms show ?thesis by simp
qed

text \<open>The entries inside the band, for every column.\<close>

lemma KINBandDQJac_entries:
  assumes "0 \<le> ml" and "0 \<le> mu" and "length u = nat n" and "kin_lmem km = Some kb"
  shows "\<exists>ft' J'.
           KINBandDQJac ar n mu ml J u fu km tmp1 tmp2 =
             Some (0, J', u, ft', u,
                   km\<lparr>kin_lmem := Some (kb\<lparr>b_nfeB := b_nfeB kb + min (ml + mu + 1) n\<rparr>),
                      kin_func_args := kin_func_args km @
                        map (dq_perturbed ar (kin_sqrt_relfunc km) u (kin_uscale km) (ml + mu + 1))
                          [0 .. min (ml + mu + 1) n - 1]\<rparr>)
           \<and> (\<forall>j i. 0 \<le> j \<and> j < n \<and> max 0 (j - mu) \<le> i \<and> i \<le> min (j + ml) (n - 1) \<longrightarrow>
                 J' (i, j) =
                   r_mul ar
                     (r_div ar (RCONST ar ONE)
                        (dq_inc ar (kin_sqrt_relfunc km) u (kin_uscale km) j))
                     (r_sub ar
                        (kin_func km (dq_perturbed ar (kin_sqrt_relfunc km) u (kin_uscale km)
                           (ml + mu + 1) (j mod (ml + mu + 1))) ! nat i)
                        (fu ! nat i)))"
proof -
  let ?w = "ml + mu + 1"
  have w: "0 < ?w" using assms by simp
  from KINBandDQJac_result [OF assms(3) assms(4), of ar mu ml J fu tmp1 tmp2]
  obtain ft' J' where
    run: "KINBandDQJac ar n mu ml J u fu km tmp1 tmp2 =
             Some (0, J', u, ft', u,
                   km\<lparr>kin_lmem := Some (kb\<lparr>b_nfeB := b_nfeB kb + min ?w n\<rparr>),
                      kin_func_args := kin_func_args km @
                        map (dq_perturbed ar (kin_sqrt_relfunc km) u (kin_uscale km) ?w)
                          [0 .. min ?w n - 1]\<rparr>)"
    and J': "\<And>i j. J' (i, j) =
                 (if 0 \<le> j mod ?w \<and> j mod ?w < min ?w n \<and> 0 \<le> j \<and> j < n
                     \<and> max 0 (j - mu) \<le> i \<and> i \<le> min (j + ml) (n - 1)
                  then r_mul ar
                         (r_div ar (RCONST ar ONE)
                            (dq_inc ar (kin_sqrt_relfunc km) u (kin_uscale km) j))
                         (r_sub ar
                            (kin_func km (dq_perturbed ar (kin_sqrt_relfunc km) u (kin_uscale km)
                               ?w (j mod ?w)) ! nat i)
                            (fu ! nat i))
                  else J (i, j))"
    by blast
  have "J' (i, j) =
          r_mul ar
            (r_div ar (RCONST ar ONE) (dq_inc ar (kin_sqrt_relfunc km) u (kin_uscale km) j))
            (r_sub ar
               (kin_func km (dq_perturbed ar (kin_sqrt_relfunc km) u (kin_uscale km)
                  ?w (j mod ?w)) ! nat i)
               (fu ! nat i))"
    if "0 \<le> j \<and> j < n \<and> max 0 (j - mu) \<le> i \<and> i \<le> min (j + ml) (n - 1)" for i j
  proof -
    from that column_in_some_group [OF w, of j n]
    have "0 \<le> j mod ?w \<and> j mod ?w < min ?w n" by simp
    with that show ?thesis unfolding J' by simp
  qed
  with run show ?thesis by blast
qed

lemmas stub_kin_defs =
  stub_kin_mem_def stub_kinband_mem_def stub_ones_def stub_twos_def stub_sqrt_relfunc_def

lemmas stub_arith_defs = stub_arith_def stub_result_def stub_max_def

lemmas dq_loop_simps =
  KINBandDQJac_def N_VScale_data_def dq_groups.simps dq_increment.simps dq_quotients.simps
  dq_column.simps dq_inc_def Let_def




text \<open>
  C4 (amended). In \<open>KINBandDQJac\<close> (under the conditions of C3) the increment of column
  \<open>j\<close> is \<open>inc = sqrt_relfunc * MAX(ABS(u\<^sub>j), ABS(uscale\<^sub>j))\<close> with no floor, and every
  entry of column \<open>j\<close> inside the band is formed with the reciprocal \<open>ONE / inc\<close> of that
  value, whatever it is. In particular, when \<open>u\<^sub>j\<close> and \<open>uscale\<^sub>j\<close> are both zero (and
  zero has absolute value zero, the larger of zero and zero is zero, and \<open>sqrt_relfunc\<close>
  times zero is zero), the entries of column \<open>j\<close> are formed with \<open>ONE / 0\<close>: the code
  divides by zero.
\<close>

theorem KINBandDQJac_division_by_inc:
  assumes "1 \<le> n" and "0 \<le> mlower" and "0 \<le> mupper" and "n + mlower + mupper \<le> LONG_MAX"
    and "length u = nat n" and "kin_lmem kin_mem = Some kinband_mem"
    and "length fu = nat n" and "length (kin_uscale kin_mem) = nat n"
    and "\<forall>v. length v = nat n \<longrightarrow> length (kin_func kin_mem v) = nat n"
    and "width = mlower + mupper + 1"
    and "perturbed = dq_perturbed ar (kin_sqrt_relfunc kin_mem) u (kin_uscale kin_mem) width"
    and "ZERO = RCONST ar 0"
  shows "\<exists>J' futemp' kin_mem'.
           KINBandDQJac ar n mupper mlower J u fu kin_mem tmp1 tmp2 =
             Some (0, J', u, futemp', u, kin_mem')
           \<and> (\<forall>j i. 0 \<le> j \<and> j < n \<and> max 0 (j - mupper) \<le> i \<and> i \<le> min (j + mlower) (n - 1)
                  \<longrightarrow>
                  J' (i, j) =
                    r_mul ar
                      (r_div ar (RCONST ar ONE)
                         (r_mul ar (kin_sqrt_relfunc kin_mem)
                            (r_max ar (r_abs ar (u ! nat j))
                               (r_abs ar (kin_uscale kin_mem ! nat j)))))
                      (r_sub ar (kin_func kin_mem (perturbed (j mod width)) ! nat i)
                         (fu ! nat i))
                  \<and> (u ! nat j = ZERO \<and> kin_uscale kin_mem ! nat j = ZERO
                     \<and> r_abs ar ZERO = ZERO \<and> r_max ar ZERO ZERO = ZERO
                     \<and> r_mul ar (kin_sqrt_relfunc kin_mem) ZERO = ZERO \<longrightarrow>
                       dq_inc ar (kin_sqrt_relfunc kin_mem) u (kin_uscale kin_mem) j = ZERO
                       \<and> J' (i, j) =
                           r_mul ar (r_div ar (RCONST ar ONE) ZERO)
                             (r_sub ar (kin_func kin_mem (perturbed (j mod width)) ! nat i)
                                (fu ! nat i))))"
proof -
  from KINBandDQJac_entries [OF assms(2) assms(3) assms(5) assms(6), of ar J fu tmp1 tmp2]
  obtain ft' J' km' where
    run: "KINBandDQJac ar n mupper mlower J u fu kin_mem tmp1 tmp2 = Some (0, J', u, ft', u, km')"
    and entries: "\<And>j i. 0 \<le> j \<and> j < n \<and> max 0 (j - mupper) \<le> i
                     \<and> i \<le> min (j + mlower) (n - 1) \<Longrightarrow>
               J' (i, j) =
                 r_mul ar
                   (r_div ar (RCONST ar ONE)
                      (dq_inc ar (kin_sqrt_relfunc kin_mem) u (kin_uscale kin_mem) j))
                   (r_sub ar (kin_func kin_mem (perturbed (j mod width)) ! nat i) (fu ! nat i))"
    unfolding assms(10,11) by blast
  have zero: "dq_inc ar (kin_sqrt_relfunc kin_mem) u (kin_uscale kin_mem) j = ZERO"
    if "u ! nat j = ZERO \<and> kin_uscale kin_mem ! nat j = ZERO
        \<and> r_abs ar ZERO = ZERO \<and> r_max ar ZERO ZERO = ZERO
        \<and> r_mul ar (kin_sqrt_relfunc kin_mem) ZERO = ZERO" for j
    using that by (simp add: dq_inc_def)
  show ?thesis
    using run entries zero by (auto simp: dq_inc_def)
qed

text \<open>
  C4, witness: dimension 2, half-bandwidths 0, \<open>F(u) = 2u\<close>, \<open>sqrt_relfunc = 2\<^sup>-\<^sup>1\<^sup>0\<close>,
  \<open>u = uscale = [0, 1]\<close>. In column 0 the increment is zero and the entry, formed with
  \<open>ONE / 0\<close>, is not finite; in column 1 the increment is \<open>2\<^sup>-\<^sup>1\<^sup>0\<close> and the entry is 2.
\<close>

theorem KINBandDQJac_division_by_inc_witness:
  "\<exists>J' futemp' kin_mem'.
      KINBandDQJac stub_arith 2 0 0 BandZero [Finite 0, Finite 1] [Finite 0, Finite 2]
          (stub_kin_mem stub_sqrt_relfunc [Finite 0, Finite 1]) [Finite 0, Finite 0]
          [Finite 0, Finite 0] =
        Some (0, J', [Finite 0, Finite 1], futemp', [Finite 0, Finite 1], kin_mem')
      \<and> dq_inc stub_arith stub_sqrt_relfunc [Finite 0, Finite 1] [Finite 0, Finite 1] 0 =
          Finite 0
      \<and> J' (0, 0) = NonFinite \<and> J' (1, 1) = Finite 2"
proof -
  let ?u = "[Finite 0, Finite 1]"
  let ?km = "stub_kin_mem stub_sqrt_relfunc ?u"
  let ?p = "dq_perturbed stub_arith (kin_sqrt_relfunc ?km) ?u (kin_uscale ?km) (0 + 0 + 1)"
  have len: "length ?u = nat 2" by simp
  have lmem: "kin_lmem ?km = Some stub_kinband_mem" by (simp add: stub_kin_mem_def)
  have lenfu: "length [Finite 0, Finite 2] = nat 2" by simp
  have lenus: "length (kin_uscale ?km) = nat 2" by (simp add: stub_kin_mem_def)
  have lenF: "\<forall>v. length v = nat 2 \<longrightarrow> length (kin_func ?km v) = nat 2"
    by (simp add: stub_kin_mem_def)
  have small: "(2::int) + 0 + 0 \<le> LONG_MAX" by (simp add: LONG_MAX_def)
  have dim: "(1::int) \<le> 2" and half: "(0::int) \<le> 0" by simp_all
  from KINBandDQJac_division_by_inc
         [of 2 0 0 ?u ?km stub_kinband_mem "[Finite 0, Finite 2]" "0 + 0 + 1" ?p stub_arith
             "RCONST stub_arith 0" BandZero "[Finite 0, Finite 0]" "[Finite 0, Finite 0]",
          OF dim half half small len lmem lenfu lenus lenF refl refl refl]
  obtain J' futemp' kin_mem' where
    run: "KINBandDQJac stub_arith 2 0 0 BandZero ?u [Finite 0, Finite 2] ?km
            [Finite 0, Finite 0] [Finite 0, Finite 0] =
            Some (0, J', ?u, futemp', ?u, kin_mem')"
    and e: "\<And>j i. 0 \<le> j \<and> j < 2 \<and> max 0 (j - 0) \<le> i \<and> i \<le> min (j + 0) (2 - 1) \<Longrightarrow>
              J' (i, j) =
                r_mul stub_arith
                  (r_div stub_arith (RCONST stub_arith ONE)
                     (r_mul stub_arith (kin_sqrt_relfunc ?km)
                        (r_max stub_arith (r_abs stub_arith (?u ! nat j))
                           (r_abs stub_arith (kin_uscale ?km ! nat j)))))
                  (r_sub stub_arith (kin_func ?km (?p (j mod (0 + 0 + 1))) ! nat i)
                     ([Finite 0, Finite 2] ! nat i))"
    and z: "\<And>j i. 0 \<le> j \<and> j < 2 \<and> max 0 (j - 0) \<le> i \<and> i \<le> min (j + 0) (2 - 1) \<Longrightarrow>
              ?u ! nat j = RCONST stub_arith 0
              \<and> kin_uscale ?km ! nat j = RCONST stub_arith 0
              \<and> r_abs stub_arith (RCONST stub_arith 0) = RCONST stub_arith 0
              \<and> r_max stub_arith (RCONST stub_arith 0) (RCONST stub_arith 0) =
                  RCONST stub_arith 0
              \<and> r_mul stub_arith (kin_sqrt_relfunc ?km) (RCONST stub_arith 0) =
                  RCONST stub_arith 0 \<Longrightarrow>
              dq_inc stub_arith (kin_sqrt_relfunc ?km) ?u (kin_uscale ?km) j =
                RCONST stub_arith 0
              \<and> J' (i, j) =
                  r_mul stub_arith
                    (r_div stub_arith (RCONST stub_arith ONE) (RCONST stub_arith 0))
                    (r_sub stub_arith (kin_func ?km (?p (j mod (0 + 0 + 1))) ! nat i)
                       ([Finite 0, Finite 2] ! nat i))"
    by blast
  have p: "?p (1 mod (0 + 0 + 1)) = [Finite 0, Finite (1 + 1 / 1024)]"
    by (simp add: dq_perturbed_def dq_inc_def stub_kin_defs stub_arith_defs upt_rec)
  have "dq_inc stub_arith stub_sqrt_relfunc ?u ?u 0 = Finite 0 \<and> J' (0, 0) = NonFinite"
    using z [of 0 0] by (simp add: stub_kin_defs stub_arith_defs ONE_def)
  moreover have "J' (1, 1) = Finite 2"
    using e [of 1 1] unfolding p by (simp add: stub_kin_defs stub_arith_defs ONE_def)
  ultimately show ?thesis using run by blast
qed

text \<open>
  C4, counterexample to the claim as stated: dimension 1, \<open>u\<^sub>0 = 0\<close> and \<open>uscale\<^sub>0 = 0\<close>.
  The increment is 0, and the entry \<open>(0, 0)\<close> of the Jacobian is formed by dividing by it.
\<close>

theorem KINBandDQJac_zero_inc_counterexample:
  "dq_inc stub_arith stub_sqrt_relfunc [Finite 0] [Finite 0] 0 = Finite 0
   \<and> KINBandDQJac stub_arith 1 0 0 BandZero [Finite 0] [Finite 0]
         (stub_kin_mem stub_sqrt_relfunc [Finite 0]) [Finite 0] [Finite 0] =
       Some (0, BandZero((0, 0) := NonFinite), [Finite 0], [Finite 0], [Finite 0],
             (stub_kin_mem stub_sqrt_relfunc [Finite 0])
               \<lparr>kin_lmem := Some (stub_kinband_mem\<lparr>b_nfeB := 1\<rparr>),
                kin_func_args := [[Finite 0]]\<rparr>)"
  by (simp add: dq_loop_simps stub_kin_defs stub_arith_defs ONE_def)

text \<open>
  C5. One call of \<open>KINBandDQJac\<close> (on vectors of \<open>n\<close> components, with a system function
  that returns such vectors and with the band solver memory attached) returns with the work vector \<open>utemp\<close> equal to \<open>u\<close> and with
  \<open>u\<close> as it was; and the vector at which the system function is called for a group
  differs from \<open>u\<close> only in the columns of that group, so the columns perturbed for the
  groups before it have been restored.
\<close>

theorem KINBandDQJac_restores_utemp:
  assumes "length u = nat n" and "kin_lmem kin_mem = Some kinband_mem"
    and "width = mlower + mupper + 1"
    and "length fu = nat n" and "length (kin_uscale kin_mem) = nat n"
    and "\<forall>v. length v = nat n \<longrightarrow> length (kin_func kin_mem v) = nat n"
  shows "\<exists>J' futemp' kin_mem' evals.
           KINBandDQJac ar n mupper mlower J u fu kin_mem tmp1 tmp2 =
             Some (0, J', u, futemp', u, kin_mem')
           \<and> kin_func_args kin_mem' = kin_func_args kin_mem @ evals
           \<and> length evals = nat (min width n)
           \<and> (\<forall>g k. g < length evals \<and> k < length u \<and> int k mod width \<noteq> int g \<longrightarrow>
                  evals ! g ! k = u ! k)"
proof -
  let ?p = "dq_perturbed ar (kin_sqrt_relfunc kin_mem) u (kin_uscale kin_mem) width"
  let ?evals = "map ?p [0 .. min width n - 1]"
  from KINBandDQJac_result [OF assms(1) assms(2), of ar mupper mlower J fu tmp1 tmp2]
  obtain ft' J' km' where
    run: "KINBandDQJac ar n mupper mlower J u fu kin_mem tmp1 tmp2 = Some (0, J', u, ft', u, km')"
    and args: "kin_func_args km' = kin_func_args kin_mem @ ?evals"
    unfolding assms(3) by force
  have len: "length ?evals = nat (min width n)" by simp
  have "?evals ! g ! k = u ! k"
    if "g < length ?evals \<and> k < length u \<and> int k mod width \<noteq> int g" for g k
  proof -
    from that have g: "g < length [0 .. min width n - 1]" by simp
    then have "g < nat (min width n)" by simp
    then have "0 + int g \<le> min width n - 1" by linarith
    then have "[0 .. min width n - 1] ! g = int g" using nth_upto [of 0 g "min width n - 1"] by simp
    with g have "?evals ! g = ?p (int g)" by simp
    with that show ?thesis by (simp add: dq_perturbed_nth)
  qed
  with run args len show ?thesis by blast
qed

text \<open>
  C5, witness: \<open>n = 10\<close>, \<open>mlower = mupper = 1\<close>: three evaluations; at the evaluation of
  group 1 the columns 0 and 2, and at that of group 2 the column 1, hold the values of \<open>u\<close>.
\<close>

theorem KINBandDQJac_restores_utemp_witness:
  "\<exists>J' futemp' kin_mem' evals.
     KINBandDQJac stub_arith 10 1 1 BandZero stub_ones stub_twos
         (stub_kin_mem stub_sqrt_relfunc stub_ones) stub_ones stub_ones =
       Some (0, J', stub_ones, futemp', stub_ones, kin_mem')
     \<and> kin_func_args kin_mem' = evals
     \<and> length evals = 3
     \<and> evals ! 1 ! 0 = Finite 1 \<and> evals ! 1 ! 2 = Finite 1 \<and> evals ! 2 ! 1 = Finite 1"
proof -
  let ?km = "stub_kin_mem stub_sqrt_relfunc stub_ones"
  have len: "length stub_ones = nat 10" by (simp add: stub_ones_def)
  have lmem: "kin_lmem ?km = Some stub_kinband_mem" by (simp add: stub_kin_mem_def)
  have lenfu: "length stub_twos = nat 10" by (simp add: stub_twos_def)
  have lenus: "length (kin_uscale ?km) = nat 10" by (simp add: stub_kin_defs)
  have lenF: "\<forall>v. length v = nat 10 \<longrightarrow> length (kin_func ?km v) = nat 10"
    by (simp add: stub_kin_mem_def)
  from KINBandDQJac_restores_utemp
         [of stub_ones 10 ?km stub_kinband_mem "1 + 1 + 1" 1 1 stub_twos stub_arith BandZero
             stub_ones stub_ones, OF len lmem refl lenfu lenus lenF]
  obtain J' futemp' kin_mem' evals where
    run: "KINBandDQJac stub_arith 10 1 1 BandZero stub_ones stub_twos ?km stub_ones stub_ones =
            Some (0, J', stub_ones, futemp', stub_ones, kin_mem')"
    and a: "kin_func_args kin_mem' = kin_func_args ?km @ evals"
    and n: "length evals = nat (min (1 + 1 + 1) 10)"
    and r: "\<And>g k. g < length evals \<and> k < length stub_ones \<and> int k mod (1 + 1 + 1) \<noteq> int g \<Longrightarrow>
                  evals ! g ! k = stub_ones ! k"
    by auto
  have n3: "length evals = 3" using n by simp
  have "evals ! 1 ! 0 = Finite 1" using r [of 1 0] n3 by (simp add: stub_ones_def)
  moreover have "evals ! 1 ! 2 = Finite 1" using r [of 1 2] n3 by (simp add: stub_ones_def)
  moreover have "evals ! 2 ! 1 = Finite 1" using r [of 2 1] n3 by (simp add: stub_ones_def)
  moreover have "kin_func_args kin_mem' = evals" using a by (simp add: stub_kin_mem_def)
  ultimately show ?thesis using run n3 by blast
qed


end
